theory Spec2Isabelle
  imports Main "HOL-Library.Log_Nat" "HOL-Library.Word"
begin

section \<open>Python values\<close>

text \<open>
  A Python \<open>str\<close> is a sequence of Unicode code points; it is modelled as the list of
  its code points, so that \<open>len\<close>, slicing and \<open>startswith\<close> count what Python counts.
  \<open>ascii\<close> turns an ASCII literal into that representation.
\<close>

type_synonym pystr = "nat list"

definition ascii :: "string \<Rightarrow> pystr" where
  "ascii s = map of_char s"

text \<open>
  A Python \<open>float\<close> is an IEEE binary64 value: a finite rational on the binary64 grid,
  an infinity or a NaN. The two zeros are identified (no operation of the program
  divides by a zero or looks at the sign of a zero).
\<close>

datatype double = Fin rat | PInf | NInf | NaN

text \<open>
  The values a decoded JSON document is made of. An object is an association list;
  \<open>map_of\<close> reads it, so the first binding of a key is the one the dict holds.
\<close>

datatype json =
    JNull
  | JBool bool
  | JInt int
  | JFloat double
  | JStr pystr
  | JArr "json list"
  | JObj "(pystr \<times> json) list"

text \<open>Python's truth value of an object (\<open>if x\<close>, \<open>not x\<close>, \<open>x or y\<close>).\<close>

fun truthy :: "json \<Rightarrow> bool" where
  "truthy JNull = False"
| "truthy (JBool b) = b"
| "truthy (JInt n) = (n \<noteq> 0)"
| "truthy (JFloat d) = (d \<noteq> Fin 0)"
| "truthy (JStr s) = (s \<noteq> [])"
| "truthy (JArr xs) = (xs \<noteq> [])"
| "truthy (JObj kvs) = (kvs \<noteq> [])"

text \<open>
  The exceptions of the program. The four \<open>ValueError\<close>s the client raises itself are
  told apart by their raise site (in the source, by their message):
  \<^item> \<open>HandleSearchNeedsApiKey\<close>: "search by @username requires YOUTUBE_API_KEY", raised
    by \<open>_resolve_channel_identifier\<close> (the specification's ConfigurationError);
  \<^item> \<open>ChannelIdUndetermined\<close>: "could not determine the channel ID", raised by
    \<open>fetch_thumbnails\<close>;
  \<^item> \<open>ApiKeyMissing\<close>: "YOUTUBE_API_KEY is not set", raised by \<open>_get_uploads_playlist\<close>;
  \<^item> \<open>ChannelNotFound\<close>: "channel not found or unavailable", raised by
    \<open>_get_uploads_playlist\<close>.
  \<open>HTTPError\<close> is \<open>httpx.HTTPError\<close> (transport failure, timeout, non-success status),
  \<open>JSONDecodeError\<close> is raised by \<open>response.json()\<close>, \<open>GenerationError\<close> is whatever the
  generation library raises; the others are Python's built-in exceptions.
\<close>

datatype error =
    HandleSearchNeedsApiKey
  | ChannelIdUndetermined
  | ApiKeyMissing
  | ChannelNotFound
  | HTTPError
  | JSONDecodeError
  | GenerationError
  | AttributeError
  | TypeError
  | KeyError
  | ValueError
  | OverflowError
  | ZeroDivisionError

text \<open>\<open>d.get(k, default)\<close>: only a dict has the method.\<close>

fun py_get :: "json \<Rightarrow> pystr \<Rightarrow> json \<Rightarrow> error + json" where
  "py_get (JObj kvs) k dflt = Inr (case map_of kvs k of None \<Rightarrow> dflt | Some v \<Rightarrow> v)"
| "py_get _ k dflt = Inl AttributeError"

text \<open>\<open>x[k]\<close> with a string key.\<close>

fun py_item :: "json \<Rightarrow> pystr \<Rightarrow> error + json" where
  "py_item (JObj kvs) k = (case map_of kvs k of None \<Rightarrow> Inl KeyError | Some v \<Rightarrow> Inr v)"
| "py_item _ k = Inl TypeError"

text \<open>
  \<open>x[0]\<close> for a truthy \<open>x\<close>: the first element of a list, the first character of a
  string, \<open>KeyError\<close> on a dict (the keys of a decoded JSON object are strings),
  \<open>TypeError\<close> on a number.
\<close>

fun py_first :: "json \<Rightarrow> error + json" where
  "py_first (JArr (x # xs)) = Inr x"
| "py_first (JArr []) = Inl TypeError"
| "py_first (JStr (c # cs)) = Inr (JStr [c])"
| "py_first (JStr []) = Inl TypeError"
| "py_first (JObj kvs) = Inl KeyError"
| "py_first _ = Inl TypeError"

text \<open>An optional string as a Python value (\<open>None\<close> or the string).\<close>

fun opt_str :: "pystr option \<Rightarrow> json" where
  "opt_str None = JNull"
| "opt_str (Some s) = JStr s"

section \<open>The network\<close>

text \<open>
  A request is the URL and the query parameters of one \<open>client.get\<close>. The network is a
  parameter: it answers a request, given the requests made before it, with a transport
  failure (\<open>client.get\<close> or \<open>raise_for_status\<close> raises), a body that is not JSON, or a
  decoded body. Every call is appended to the log that the operations thread through.
\<close>

record request =
  url :: pystr
  params :: "(pystr \<times> json) list"

datatype response = TransportFailure | InvalidBody | Body json

type_synonym network = "request list \<Rightarrow> request \<Rightarrow> response"

definition base_url :: pystr where
  "base_url = ascii ''https://www.googleapis.com/youtube/v3''"

definition http_get_json ::
  "network \<Rightarrow> request \<Rightarrow> request list \<Rightarrow> (error + json) \<times> request list" where
  "http_get_json net req calls =
     (case net calls req of
        TransportFailure \<Rightarrow> Inl HTTPError
      | InvalidBody \<Rightarrow> Inl JSONDecodeError
      | Body j \<Rightarrow> Inr j,
      calls @ [req])"

section \<open>Channel resolution\<close>

text \<open>
  \<open>\w\<close> of a \<open>str\<close> pattern matches the underscore and every alphanumeric code point
  of the Unicode database. On ASCII that is letters and digits; beyond ASCII the
  database decides, and it is the parameter \<open>U\<close> of everything below.
\<close>

definition ascii_alnum :: "nat \<Rightarrow> bool" where
  "ascii_alnum c = ((48 \<le> c \<and> c \<le> 57) \<or> (65 \<le> c \<and> c \<le> 90) \<or> (97 \<le> c \<and> c \<le> 122))"

definition word_char :: "(nat \<Rightarrow> bool) \<Rightarrow> nat \<Rightarrow> bool" where
  "word_char U c = (c = 95 \<or> ascii_alnum c \<or> (128 \<le> c \<and> U c))"

text \<open>The class \<open>[\w-]\<close>.\<close>

definition id_char :: "(nat \<Rightarrow> bool) \<Rightarrow> nat \<Rightarrow> bool" where
  "id_char U c = (word_char U c \<or> c = 45)"

text \<open>The class \<open>[A-Za-z0-9._-]\<close>.\<close>

definition handle_char :: "nat \<Rightarrow> bool" where
  "handle_char c = (ascii_alnum c \<or> c = 46 \<or> c = 95 \<or> c = 45)"

text \<open>The pattern \<open>UC[\w-]{22}\<close> matches at the head of \<open>s\<close>.\<close>

definition channel_id_at :: "(nat \<Rightarrow> bool) \<Rightarrow> pystr \<Rightarrow> bool" where
  "channel_id_at U s =
     (24 \<le> length s \<and> take 2 s = ascii ''UC'' \<and> list_all (id_char U) (take 22 (drop 2 s)))"

text \<open>\<open>re.search(r"(UC[\w-]{22})", url)\<close>: the leftmost match, group 1.\<close>

fun search_channel_id :: "(nat \<Rightarrow> bool) \<Rightarrow> pystr \<Rightarrow> pystr option" where
  "search_channel_id U [] = None"
| "search_channel_id U (c # cs) =
     (if channel_id_at U (c # cs) then Some (take 24 (c # cs)) else search_channel_id U cs)"

definition extract_channel_id :: "(nat \<Rightarrow> bool) \<Rightarrow> pystr \<Rightarrow> pystr option" where
  "extract_channel_id U u =
     (case search_channel_id U u of
        Some m \<Rightarrow> Some m
      | None \<Rightarrow> if take 2 u = ascii ''UC'' \<and> 24 \<le> length u then Some u else None)"

text \<open>
  \<open>re.search(r"@([A-Za-z0-9._-]+)", value)\<close>: the leftmost \<open>@\<close> that a handle
  character follows, group 1 being the longest run of handle characters after it.
\<close>

fun search_handle :: "pystr \<Rightarrow> pystr option" where
  "search_handle [] = None"
| "search_handle (c # cs) =
     (if c = 64 \<and> (case cs of [] \<Rightarrow> False | d # _ \<Rightarrow> handle_char d)
      then Some (takeWhile handle_char cs) else search_handle cs)"

definition extract_handle :: "pystr \<Rightarrow> pystr option" where
  "extract_handle v =
     (case search_handle v of
        Some h \<Rightarrow> Some h
      | None \<Rightarrow> if take 1 v = ascii ''@'' then Some (dropWhile (\<lambda>c. c = 64) v) else None)"

definition fetch_channel_id_by_handle ::
  "pystr option \<Rightarrow> network \<Rightarrow> pystr \<Rightarrow> request list \<Rightarrow> (error + json) \<times> request list" where
  "fetch_channel_id_by_handle api_key net handle calls =
     (let req = \<lparr>url = base_url @ ascii ''/search'',
                 params = [(ascii ''part'', JStr (ascii ''snippet'')),
                           (ascii ''type'', JStr (ascii ''channel'')),
                           (ascii ''q'', JStr (ascii ''@'' @ handle)),
                           (ascii ''maxResults'', JInt 1),
                           (ascii ''key'', opt_str api_key)]\<rparr>
      in case http_get_json net req calls of
           (Inl e, calls') \<Rightarrow> (Inl e, calls')
         | (Inr data, calls') \<Rightarrow>
             (case py_get data (ascii ''items'') (JArr []) of
                Inl e \<Rightarrow> Inl e
              | Inr items \<Rightarrow>
                  if \<not> truthy items then Inr JNull
                  else (case py_first items of
                          Inl e \<Rightarrow> Inl e
                        | Inr it \<Rightarrow>
                            (case py_get it (ascii ''id'') (JObj []) of
                               Inl e \<Rightarrow> Inl e
                             | Inr i \<Rightarrow> py_get i (ascii ''channelId'') JNull)),
              calls'))"

text \<open>
  \<open>_resolve_channel_identifier\<close>. The result is a Python value: the string of a literal
  ID, whatever the search answered for a handle, or \<open>None\<close>.
\<close>

definition resolve_channel_identifier ::
  "(nat \<Rightarrow> bool) \<Rightarrow> pystr option \<Rightarrow> network \<Rightarrow> pystr \<Rightarrow> request list
     \<Rightarrow> (error + json) \<times> request list" where
  "resolve_channel_identifier U api_key net v calls =
     (let channel_id = extract_channel_id U v in
      if truthy (opt_str channel_id) then (Inr (opt_str channel_id), calls)
      else (case extract_handle v of
              None \<Rightarrow> (Inr JNull, calls)
            | Some handle \<Rightarrow>
                if handle \<noteq> [] then
                  (if \<not> truthy (opt_str api_key) then (Inl HandleSearchNeedsApiKey, calls)
                   else fetch_channel_id_by_handle api_key net handle calls)
                else (Inr JNull, calls)))"

subsection \<open>What the specification calls a literal channel ID and a handle token\<close>

text \<open>
  The specification's "fixed-length, two-letter-prefixed channel-ID pattern", stated on
  its own and not through the search: \<open>UC\<close> and then 22 characters of \<open>[\w-]\<close>; a
  reference contains a literal ID when one of its substrings has that shape.
\<close>

definition is_channel_id :: "(nat \<Rightarrow> bool) \<Rightarrow> pystr \<Rightarrow> bool" where
  "is_channel_id U m =
     (length m = 24 \<and> take 2 m = ascii ''UC'' \<and> list_all (id_char U) (drop 2 m))"

definition contains_channel_id :: "(nat \<Rightarrow> bool) \<Rightarrow> pystr \<Rightarrow> bool" where
  "contains_channel_id U s = (\<exists>pre m post. s = pre @ m @ post \<and> is_channel_id U m)"

text \<open>An \<open>@handle\<close> token: an \<open>@\<close> that a handle character follows.\<close>

definition has_handle_token :: "pystr \<Rightarrow> bool" where
  "has_handle_token s = (\<exists>pre c post. s = pre @ 64 # c # post \<and> handle_char c)"

text \<open>
  Two concrete surroundings for the examples: a Unicode database with no alphanumeric
  beyond ASCII, and a network on which every call fails.
\<close>

definition ascii_only :: "nat \<Rightarrow> bool" where
  "ascii_only c = False"

definition offline :: network where
  "offline calls req = TransportFailure"

section \<open>Recent videos of a playlist\<close>

text \<open>
  \<open>for item in x\<close>: the elements of a list, the characters of a string, the keys of a
  dict; nothing else that JSON decodes to can be iterated.
\<close>

fun py_iter :: "json \<Rightarrow> error + json list" where
  "py_iter (JArr xs) = Inr xs"
| "py_iter (JStr s) = Inr (map (\<lambda>c. JStr [c]) s)"
| "py_iter (JObj kvs) = Inr (map JStr (remdups (map fst kvs)))"
| "py_iter _ = Inl TypeError"

text \<open>\<open>item["snippet"]["resourceId"]["videoId"]\<close>.\<close>

definition video_id_of :: "json \<Rightarrow> error + json" where
  "video_id_of item =
     (case py_item item (ascii ''snippet'') of
        Inl e \<Rightarrow> Inl e
      | Inr sn \<Rightarrow>
          (case py_item sn (ascii ''resourceId'') of
             Inl e \<Rightarrow> Inl e
           | Inr r \<Rightarrow> py_item r (ascii ''videoId'')))"

text \<open>The list comprehension: the first item that raises ends it.\<close>

fun video_ids_of :: "json list \<Rightarrow> error + json list" where
  "video_ids_of [] = Inr []"
| "video_ids_of (item # items) =
     (case video_id_of item of
        Inl e \<Rightarrow> Inl e
      | Inr v \<Rightarrow> (case video_ids_of items of Inl e \<Rightarrow> Inl e | Inr vs \<Rightarrow> Inr (v # vs)))"

text \<open>\<open>",".join(xs)\<close>: every element has to be a string.\<close>

fun py_join_comma :: "json list \<Rightarrow> error + pystr" where
  "py_join_comma [] = Inr []"
| "py_join_comma [JStr s] = Inr s"
| "py_join_comma (JStr s # x # xs) =
     (case py_join_comma (x # xs) of Inl e \<Rightarrow> Inl e | Inr r \<Rightarrow> Inr (s @ ascii '','' @ r))"
| "py_join_comma (_ # xs) = Inl TypeError"

definition playlist_request :: "pystr option \<Rightarrow> json \<Rightarrow> int \<Rightarrow> request" where
  "playlist_request api_key playlist_id max_results =
     \<lparr>url = base_url @ ascii ''/playlistItems'',
      params = [(ascii ''part'', JStr (ascii ''snippet'')),
                (ascii ''playlistId'', playlist_id),
                (ascii ''maxResults'', JInt max_results),
                (ascii ''key'', opt_str api_key)]\<rparr>"

definition stats_request :: "pystr option \<Rightarrow> pystr \<Rightarrow> request" where
  "stats_request api_key ids =
     \<lparr>url = base_url @ ascii ''/videos'',
      params = [(ascii ''part'', JStr (ascii ''snippet,statistics'')),
                (ascii ''id'', JStr ids),
                (ascii ''key'', opt_str api_key)]\<rparr>"

text \<open>
  \<open>_get_latest_videos\<close>. The playlist ID is whatever \<open>_get_uploads_playlist\<close> read out of
  the channel's body; the result is the empty list or the \<open>items\<close> of the statistics
  body, as they are.
\<close>

definition get_latest_videos ::
  "pystr option \<Rightarrow> network \<Rightarrow> json \<Rightarrow> int \<Rightarrow> request list \<Rightarrow> (error + json) \<times> request list" where
  "get_latest_videos api_key net playlist_id max_results calls =
     (case http_get_json net (playlist_request api_key playlist_id max_results) calls of
        (Inl e, calls1) \<Rightarrow> (Inl e, calls1)
      | (Inr playlist_data, calls1) \<Rightarrow>
          (case py_get playlist_data (ascii ''items'') (JArr []) of
             Inl e \<Rightarrow> (Inl e, calls1)
           | Inr items \<Rightarrow>
               (case py_iter items of
                  Inl e \<Rightarrow> (Inl e, calls1)
                | Inr its \<Rightarrow>
                    (case video_ids_of its of
                       Inl e \<Rightarrow> (Inl e, calls1)
                     | Inr video_ids \<Rightarrow>
                         if video_ids = [] then (Inr (JArr []), calls1)
                         else (case py_join_comma video_ids of
                                 Inl e \<Rightarrow> (Inl e, calls1)
                               | Inr ids \<Rightarrow>
                                   (case http_get_json net (stats_request api_key ids) calls1 of
                                      (Inl e, calls2) \<Rightarrow> (Inl e, calls2)
                                    | (Inr stats_data, calls2) \<Rightarrow>
                                        (py_get stats_data (ascii ''items'') (JArr []),
                                         calls2)))))))"

text \<open>A network that answers every call with a body holding no items.\<close>

definition empty_channel :: network where
  "empty_channel calls req = Body (JObj [(ascii ''items'', JArr [])])"


section \<open>Floating-point arithmetic\<close>

text \<open>
  Round to nearest, ties to even, on the binary64 grid. \<open>pow2 k\<close> is the power of two
  with exponent \<open>k\<close>, \<open>ilog2 a\<close> the exponent of the leading bit of a positive rational.
  A finite double with leading exponent \<open>e\<close> is a multiple of \<open>pow2 (e - 52)\<close>; below the
  exponent \<open>-1022\<close> the grid stays that of the subnormals; a result that reaches
  \<open>pow2 1024\<close> overflows to an infinity.
\<close>

definition pow2 :: "int \<Rightarrow> rat" where
  "pow2 k = (if 0 \<le> k then 2 ^ nat k else 1 / 2 ^ nat (- k))"

definition round_half_even :: "rat \<Rightarrow> int" where
  "round_half_even x =
     (let f = \<lfloor>x\<rfloor>; d = x - of_int f
      in if d < 1 / 2 then f
         else if 1 / 2 < d then f + 1
         else if even f then f else f + 1)"

definition ilog2 :: "rat \<Rightarrow> int" where
  "ilog2 a =
     (let k = bitlen (fst (quotient_of a)) - bitlen (snd (quotient_of a))
      in if pow2 k \<le> a then k else k - 1)"

definition round_double :: "rat \<Rightarrow> double" where
  "round_double q =
     (if q = 0 then Fin 0
      else let a = \<bar>q\<bar>;
               e = max (ilog2 a) (- 1022);
               u = pow2 (e - 52);
               r = of_int (round_half_even (a / u)) * u
           in if pow2 1024 \<le> r then (if 0 < q then PInf else NInf)
              else Fin (if 0 < q then r else - r))"

text \<open>Comparison and arithmetic of floats: \<open>x < y\<close>, \<open>x + y\<close>, \<open>x * y\<close>, \<open>x / y\<close>.\<close>

fun dless :: "double \<Rightarrow> double \<Rightarrow> bool" where
  "dless (Fin a) (Fin b) = (a < b)"
| "dless NaN y = False"
| "dless x NaN = False"
| "dless x NInf = False"
| "dless NInf y = True"
| "dless PInf y = False"
| "dless (Fin a) PInf = True"

fun dadd :: "double \<Rightarrow> double \<Rightarrow> double" where
  "dadd (Fin a) (Fin b) = round_double (a + b)"
| "dadd NaN y = NaN"
| "dadd x NaN = NaN"
| "dadd PInf NInf = NaN"
| "dadd NInf PInf = NaN"
| "dadd PInf y = PInf"
| "dadd x PInf = PInf"
| "dadd NInf y = NInf"
| "dadd x NInf = NInf"

fun dsign :: "double \<Rightarrow> int" where
  "dsign (Fin a) = (if a = 0 then 0 else if 0 < a then 1 else - 1)"
| "dsign PInf = 1"
| "dsign NInf = - 1"
| "dsign NaN = 0"

fun dmul :: "double \<Rightarrow> double \<Rightarrow> double" where
  "dmul (Fin a) (Fin b) = round_double (a * b)"
| "dmul NaN y = NaN"
| "dmul x NaN = NaN"
| "dmul x y =
     (if dsign x * dsign y = 0 then NaN else if 0 < dsign x * dsign y then PInf else NInf)"

fun ddiv :: "double \<Rightarrow> double \<Rightarrow> error + double" where
  "ddiv x (Fin b) =
     (if b = 0 then Inl ZeroDivisionError
      else case x of
             Fin a \<Rightarrow> Inr (round_double (a / b))
           | NaN \<Rightarrow> Inr NaN
           | PInf \<Rightarrow> Inr (if 0 < b then PInf else NInf)
           | NInf \<Rightarrow> Inr (if 0 < b then NInf else PInf))"
| "ddiv NaN y = Inr NaN"
| "ddiv x NaN = Inr NaN"
| "ddiv (Fin a) y = Inr (Fin 0)"
| "ddiv x y = Inr NaN"

text \<open>
  \<open>max(a, b)\<close> and \<open>min(a, b)\<close> of two numbers keep the first one unless the second
  is greater (smaller), so a NaN in first place stays and a NaN in second place goes.
  An \<open>int\<close> argument (the \<open>1\<close> of \<open>max(views, 1)\<close>, the \<open>100\<close> of \<open>min(100, ...)\<close>) is compared
  by its exact value and stands here as the float of that value.
\<close>

definition py_max :: "double \<Rightarrow> double \<Rightarrow> double" where
  "py_max a b = (if dless a b then b else a)"

definition py_min :: "double \<Rightarrow> double \<Rightarrow> double" where
  "py_min a b = (if dless b a then b else a)"

text \<open>
  \<open>round(x, 2)\<close>: the exact value of \<open>x\<close> is rounded to two decimals, ties to even, and
  the decimal is converted back to the nearest float; infinities and NaN round to
  themselves.
\<close>

fun py_round2 :: "double \<Rightarrow> error + double" where
  "py_round2 (Fin q) =
     (case round_double (of_int (round_half_even (q * 100)) / 100) of
        Fin r \<Rightarrow> Inr (Fin r)
      | _ \<Rightarrow> Inl OverflowError)"
| "py_round2 d = Inr d"

text \<open>
  \<open>float(x)\<close>. An \<open>int\<close> is converted with rounding and raises \<open>OverflowError\<close> when it is
  too large. A string of ASCII digits, which is how the statistics service sends its
  counters, is the nearest float of the number it spells; what \<open>float\<close> makes of any
  other string (signs, exponents, \<open>inf\<close>, \<open>nan\<close>, blanks, or \<open>ValueError\<close>) is the
  parameter \<open>P\<close>.
\<close>

definition is_ascii_digits :: "pystr \<Rightarrow> bool" where
  "is_ascii_digits s = (s \<noteq> [] \<and> list_all (\<lambda>c. 48 \<le> c \<and> c \<le> 57) s)"

definition digits_value :: "pystr \<Rightarrow> nat" where
  "digits_value s = foldl (\<lambda>n c. 10 * n + (c - 48)) 0 s"

fun py_float :: "(pystr \<Rightarrow> double option) \<Rightarrow> json \<Rightarrow> error + double" where
  "py_float P (JFloat d) = Inr d"
| "py_float P (JInt n) =
     (case round_double (of_int n) of Fin r \<Rightarrow> Inr (Fin r) | _ \<Rightarrow> Inl OverflowError)"
| "py_float P (JBool b) = Inr (Fin (if b then 1 else 0))"
| "py_float P (JStr s) =
     (if is_ascii_digits s then Inr (round_double (of_nat (digits_value s)))
      else case P s of None \<Rightarrow> Inl ValueError | Some d \<Rightarrow> Inr d)"
| "py_float P _ = Inl TypeError"

section \<open>Thumbnail entries\<close>

record ThumbnailInfo =
  video_id :: json
  title :: json
  description :: json
  thumbnail_url :: json
  ctr_score :: double

text \<open>The default title, "Untitled" in Russian.\<close>

definition untitled :: pystr where
  "untitled = [1041, 1077, 1079, 32, 1085, 1072, 1079, 1074, 1072, 1085, 1080, 1103]"

text \<open>
  The \<open>or\<close> chain over the four tiers: the first value that is truthy, and the value of
  the last tier when none is.
\<close>

definition best_thumb :: "json \<Rightarrow> error + json" where
  "best_thumb thumbnails =
     (case py_get thumbnails (ascii ''maxres'') JNull of
        Inl e \<Rightarrow> Inl e
      | Inr a \<Rightarrow>
          if truthy a then Inr a
          else (case py_get thumbnails (ascii ''standard'') JNull of
                  Inl e \<Rightarrow> Inl e
                | Inr b \<Rightarrow>
                    if truthy b then Inr b
                    else (case py_get thumbnails (ascii ''high'') JNull of
                            Inl e \<Rightarrow> Inl e
                          | Inr c \<Rightarrow>
                              if truthy c then Inr c
                              else py_get thumbnails (ascii ''default'') JNull)))"

text \<open>\<open>best_thumb.get("url") if best_thumb else ""\<close>.\<close>

definition thumb_url :: "json \<Rightarrow> error + json" where
  "thumb_url bt = (if truthy bt then py_get bt (ascii ''url'') JNull else Inr (JStr []))"

text \<open>\<open>float(stats.get(key, 0))\<close>.\<close>

definition counter :: "(pystr \<Rightarrow> double option) \<Rightarrow> json \<Rightarrow> pystr \<Rightarrow> error + double" where
  "counter P stats key =
     (case py_get stats key (JInt 0) of Inl e \<Rightarrow> Inl e | Inr v \<Rightarrow> py_float P v)"

text \<open>\<open>round(min(100, (likes + comments * 0.5) / max(views, 1) * 1200), 2)\<close>.\<close>

definition ctr_score_of :: "double \<Rightarrow> double \<Rightarrow> double \<Rightarrow> error + double" where
  "ctr_score_of views likes comments =
     (case ddiv (dadd likes (dmul comments (Fin (1 / 2)))) (py_max views (Fin 1)) of
        Inl e \<Rightarrow> Inl e
      | Inr ratio \<Rightarrow> py_round2 (py_min (Fin 100) (dmul ratio (Fin 1200))))"

text \<open>\<open>_build_thumbnail_info\<close>, statement by statement.\<close>

definition build_thumbnail_info :: "(pystr \<Rightarrow> double option) \<Rightarrow> json \<Rightarrow> error + ThumbnailInfo" where
  "build_thumbnail_info P item =
     (case py_get item (ascii ''snippet'') (JObj []) of Inl e \<Rightarrow> Inl e | Inr snippet \<Rightarrow>
     (case py_get item (ascii ''statistics'') (JObj []) of Inl e \<Rightarrow> Inl e | Inr stats \<Rightarrow>
     (case py_get snippet (ascii ''thumbnails'') (JObj []) of Inl e \<Rightarrow> Inl e | Inr thumbnails \<Rightarrow>
     (case best_thumb thumbnails of Inl e \<Rightarrow> Inl e | Inr bt \<Rightarrow>
     (case thumb_url bt of Inl e \<Rightarrow> Inl e | Inr tu \<Rightarrow>
     (case counter P stats (ascii ''viewCount'') of Inl e \<Rightarrow> Inl e | Inr views \<Rightarrow>
     (case counter P stats (ascii ''likeCount'') of Inl e \<Rightarrow> Inl e | Inr likes \<Rightarrow>
     (case counter P stats (ascii ''commentCount'') of Inl e \<Rightarrow> Inl e | Inr comments \<Rightarrow>
     (case ctr_score_of views likes comments of Inl e \<Rightarrow> Inl e | Inr score \<Rightarrow>
     (case py_get item (ascii ''id'') JNull of Inl e \<Rightarrow> Inl e | Inr vid \<Rightarrow>
     (case py_get snippet (ascii ''title'') (JStr untitled) of Inl e \<Rightarrow> Inl e | Inr t \<Rightarrow>
     (case py_get snippet (ascii ''description'') (JStr []) of Inl e \<Rightarrow> Inl e | Inr d \<Rightarrow>
        Inr \<lparr>video_id = vid, title = t, description = d, thumbnail_url = tu,
             ctr_score = score\<rparr>))))))))))))"


subsection \<open>What the specification says of a thumbnail entry\<close>

text \<open>A counter is non-negative: the float is \<open>>= 0\<close>, which a NaN is not.\<close>

fun nonneg :: "double \<Rightarrow> bool" where
  "nonneg (Fin r) = (0 \<le> r)"
| "nonneg PInf = True"
| "nonneg NInf = False"
| "nonneg NaN = False"

text \<open>
  The score as the specification writes it,
  \<open>round(min(100, (likes + 0.5 * comments) / max(views, 1) * 1200), 2)\<close>, read with the
  same float operations.
\<close>

definition spec_ctr_score :: "double \<Rightarrow> double \<Rightarrow> double \<Rightarrow> error + double" where
  "spec_ctr_score likes comments views =
     (case ddiv (dadd likes (dmul (Fin (1 / 2)) comments)) (py_max views (Fin 1)) of
        Inl e \<Rightarrow> Inl e
      | Inr x \<Rightarrow> py_round2 (py_min (Fin 100) (dmul x (Fin 1200))))"

text \<open>
  The thumbnails of a video record, as the statistics service describes them: a
  mapping from tier names to image URLs. In the decoded body a tier that the record has
  is an object whose \<open>url\<close> is a non-empty string; \<open>interface_tiers\<close> says so of the
  four tiers of the preference order. \<open>first_present\<close> is the value of the first tier of
  that order that the record has, and \<open>url_of\<close> the URL that a tier carries.
\<close>

definition tier_names :: "string list" where
  "tier_names = [''maxres'', ''standard'', ''high'', ''default'']"

definition url_of :: "json \<Rightarrow> json" where
  "url_of v =
     (case v of
        JObj kvs \<Rightarrow> (case map_of kvs (ascii ''url'') of None \<Rightarrow> JNull | Some u \<Rightarrow> u)
      | _ \<Rightarrow> JNull)"

definition carries_url :: "json \<Rightarrow> bool" where
  "carries_url v = (case url_of v of JStr u \<Rightarrow> u \<noteq> [] | _ \<Rightarrow> False)"

definition interface_tiers :: "(pystr \<times> json) list \<Rightarrow> bool" where
  "interface_tiers tiers =
     list_all (\<lambda>name. case map_of tiers (ascii name) of None \<Rightarrow> True | Some v \<Rightarrow> carries_url v)
       tier_names"

definition first_present :: "(pystr \<times> json) list \<Rightarrow> json option" where
  "first_present tiers =
     (case List.map_filter (\<lambda>name. map_of tiers (ascii name)) tier_names of
        [] \<Rightarrow> None
      | v # _ \<Rightarrow> Some v)"

text \<open>
  Concrete records for the examples. The statistics service sends its counters as
  strings of digits; \<open>no_parse\<close> is a \<open>float\<close> that accepts no other string.
\<close>

definition no_parse :: "pystr \<Rightarrow> double option" where
  "no_parse s = None"

definition statistics_of :: "json \<Rightarrow> json \<Rightarrow> json \<Rightarrow> json" where
  "statistics_of v l c =
     JObj [(ascii ''viewCount'', v), (ascii ''likeCount'', l), (ascii ''commentCount'', c)]"

definition example_video :: json where
  "example_video =
     JObj [(ascii ''id'', JStr (ascii ''v1'')),
           (ascii ''statistics'',
            statistics_of (JStr (ascii ''1000'')) (JStr (ascii ''50'')) (JStr (ascii ''20'')))]"

definition unseen_video :: json where
  "unseen_video =
     JObj [(ascii ''id'', JStr (ascii ''v2'')),
           (ascii ''statistics'',
            statistics_of (JStr (ascii ''0'')) (JStr (ascii ''3'')) (JStr (ascii ''1'')))]"

definition video_with_tiers :: "(pystr \<times> json) list \<Rightarrow> json" where
  "video_with_tiers tiers =
     JObj [(ascii ''id'', JStr (ascii ''v3'')),
           (ascii ''snippet'', JObj [(ascii ''thumbnails'', JObj tiers)])]"

text \<open>The example record with its counters as numbers instead of strings.\<close>

definition example_video_numbers :: json where
  "example_video_numbers =
     JObj [(ascii ''id'', JStr (ascii ''v1'')),
           (ascii ''statistics'', statistics_of (JInt 1000) (JInt 50) (JInt 20))]"


section \<open>Creative suggestions\<close>

text \<open>
  The literals of \<open>propose_new_thumbnail\<close> are Russian text; they are given by their
  code points. In order: the role-setting instruction (\<open>base_prompt\<close>), the three labels
  of the content block ("Title: ", "Description: ", "Current thumbnail: "), the marker
  for a missing thumbnail ("no link"), the idea text without a key ("Use GEMINI_API_KEY
  to get ideas based on the content.") and the text of an empty placeholder ("New
  thumbnail idea").
\<close>

definition base_prompt :: pystr where
  "base_prompt =
    [1058, 1099, 32, 8212, 32, 1087, 1088, 1086, 1076, 1102, 1089, 1077, 1088, 32, 89, 111,
     117, 84, 117, 98, 101, 46, 32, 1055, 1088, 1086, 1072, 1085, 1072, 1083, 1080, 1079,
     1080, 1088, 1091, 1081, 32, 1079, 1072, 1075, 1086, 1083, 1086, 1074, 1086, 1082, 32,
     1080, 32, 1086, 1087, 1080, 1089, 1072, 1085, 1080, 1077, 32, 1088, 1086, 1083, 1080,
     1082, 1072, 44, 32, 1087, 1088, 1077, 1076, 1083, 1086, 1078, 1080, 32, 1090, 1088,
     1080, 32, 1089, 1080, 1083, 1100, 1085, 1099, 1093, 32, 1074, 1080, 1079, 1091, 1072,
     1083, 1100, 1085, 1099, 1093, 32, 1082, 1086, 1085, 1094, 1077, 1087, 1094, 1080,
     1080, 32, 1087, 1088, 1077, 1074, 1100, 1102, 32, 1080, 32, 1082, 1086, 1088, 1086,
     1090, 1082, 1086, 1077, 32, 67, 84, 65, 46]"

definition title_label :: pystr where
  "title_label = [1047, 1072, 1075, 1086, 1083, 1086, 1074, 1086, 1082, 58, 32]"

definition description_label :: pystr where
  "description_label = [10, 1054, 1087, 1080, 1089, 1072, 1085, 1080, 1077, 58, 32]"

definition thumbnail_label :: pystr where
  "thumbnail_label =
    [10, 1058, 1077, 1082, 1091, 1097, 1077, 1077, 32, 1087, 1088, 1077, 1074, 1100, 1102,
     58, 32]"

definition no_link :: pystr where
  "no_link = [1085, 1077, 1090, 32, 1089, 1089, 1099, 1083, 1082, 1080]"

definition idea_without_key :: pystr where
  "idea_without_key =
    [1048, 1089, 1087, 1086, 1083, 1100, 1079, 1091, 1081, 1090, 1077, 32, 71, 69, 77, 73,
     78, 73, 95, 65, 80, 73, 95, 75, 69, 89, 44, 32, 1095, 1090, 1086, 1073, 1099, 32,
     1087, 1086, 1083, 1091, 1095, 1080, 1090, 1100, 32, 1080, 1076, 1077, 1080, 32, 1085,
     1072, 32, 1086, 1089, 1085, 1086, 1074, 1077, 32, 1082, 1086, 1085, 1090, 1077, 1085,
     1090, 1072, 46]"

definition new_idea_text :: pystr where
  "new_idea_text =
    [1053, 1086, 1074, 1072, 1103, 32, 1080, 1076, 1077, 1103, 32, 1087, 1088, 1077, 1074,
     1100, 1102]"

record GeminiResult =
  prompt :: pystr
  idea :: pystr
  image_data_url :: "pystr option"

subsection \<open>Base64 and the placeholder image\<close>

text \<open>\<open>base64.b64encode\<close> on a byte string, decoded as text.\<close>

definition b64_char :: "nat \<Rightarrow> nat" where
  "b64_char i =
     (if i < 26 then 65 + i
      else if i < 52 then 97 + (i - 26)
      else if i < 62 then 48 + (i - 52)
      else if i = 62 then 43 else 47)"

fun b64encode :: "8 word list \<Rightarrow> pystr" where
  "b64encode [] = []"
| "b64encode [a] =
     [b64_char (unat a div 4), b64_char (unat a mod 4 * 16), 61, 61]"
| "b64encode [a, b] =
     [b64_char (unat a div 4), b64_char (unat a mod 4 * 16 + unat b div 16),
      b64_char (unat b mod 16 * 4), 61]"
| "b64encode (a # b # c # rest) =
     [b64_char (unat a div 4), b64_char (unat a mod 4 * 16 + unat b div 16),
      b64_char (unat b mod 16 * 4 + unat c div 64), b64_char (unat c mod 64)]
     @ b64encode rest"

definition image_to_data_url :: "8 word list \<Rightarrow> pystr" where
  "image_to_data_url image_bytes = ascii ''data:image/png;base64,'' @ b64encode image_bytes"

text \<open>
  \<open>_placeholder_image\<close>. Two library functions are parameters: \<open>fill\<close> is
  \<open>textwrap.fill(text, width=30)\<close>, and \<open>render\<close> is the drawing of the wrapped text on
  the 1280 by 720 canvas and its saving as PNG, which gives the bytes of the file.
\<close>

definition placeholder_image :: "(pystr \<Rightarrow> pystr) \<Rightarrow> (pystr \<Rightarrow> 8 word list) \<Rightarrow> pystr \<Rightarrow> pystr" where
  "placeholder_image fill render text =
     (let wrapped = (if fill text \<noteq> [] then fill text else new_idea_text)
      in ascii ''data:image/png;base64,'' @ b64encode (render wrapped))"

subsection \<open>The generation service\<close>

text \<open>
  A call into the generation library raises or returns. \<open>generate_content\<close> stands for
  building the text model, calling it with the two prompts and reading \<open>response.text\<close>;
  \<open>generate_images\<close> for building the image model and calling it with the prompt, the
  result being the list of generated images (empty for a response that is falsy or holds
  no image). A generated image is a byte string, which \<open>b64encode\<close> accepts, or some other
  object, on which it raises \<open>TypeError\<close>. The library itself is optional: \<open>genai\<close> is
  \<open>None\<close> when its import failed.
\<close>

datatype 'a outcome = Raises | Returns 'a

datatype generated_image = ImageBytes "8 word list" | ImageObject

record genai_service =
  generate_content :: "pystr \<Rightarrow> pystr list \<Rightarrow> pystr outcome"
  generate_images :: "pystr \<Rightarrow> pystr \<Rightarrow> generated_image list outcome"

datatype gen_call = GenerateContent pystr "pystr list" | GenerateImages pystr pystr

text \<open>\<open>str.isspace\<close> of one code point, and \<open>str.strip()\<close>.\<close>

definition py_isspace :: "nat \<Rightarrow> bool" where
  "py_isspace c =
     ((9 \<le> c \<and> c \<le> 13) \<or> (28 \<le> c \<and> c \<le> 32) \<or> c = 133 \<or> c = 160 \<or> c = 5760 \<or>
      (8192 \<le> c \<and> c \<le> 8202) \<or> c = 8232 \<or> c = 8233 \<or> c = 8239 \<or> c = 8287 \<or> c = 12288)"

definition py_strip :: "pystr \<Rightarrow> pystr" where
  "py_strip s = rev (dropWhile py_isspace (rev (dropWhile py_isspace s)))"

definition content_prompt :: "pystr \<Rightarrow> pystr \<Rightarrow> pystr option \<Rightarrow> pystr" where
  "content_prompt video_title video_description original_thumbnail =
     title_label @ video_title @ description_label @ take 500 video_description @ thumbnail_label @
     (case original_thumbnail of
        None \<Rightarrow> no_link
      | Some u \<Rightarrow> if u \<noteq> [] then u else no_link)"

definition image_prompt :: "pystr \<Rightarrow> pystr" where
  "image_prompt video_title =
     ascii ''YouTube thumbnail, '' @ video_title @ ascii '', cinematic, high contrast, eye-catching''"

definition text_model :: pystr where
  "text_model = ascii ''gemini-1.5-flash-latest''"

definition image_model :: pystr where
  "image_model = ascii ''imagen-3.0-generate-001''"

text \<open>
  \<open>propose_new_thumbnail\<close>. The text generation is outside the \<open>try\<close>: when it raises,
  the call raises. The image generation and the encoding of its first image are inside
  it: when either raises, the placeholder stays.
\<close>

definition propose_new_thumbnail ::
  "(pystr \<Rightarrow> pystr) \<Rightarrow> (pystr \<Rightarrow> 8 word list) \<Rightarrow> pystr option \<Rightarrow> genai_service option
     \<Rightarrow> pystr \<Rightarrow> pystr \<Rightarrow> pystr option \<Rightarrow> gen_call list
     \<Rightarrow> (error + GeminiResult) \<times> gen_call list" where
  "propose_new_thumbnail fill render api_key genai video_title video_description original_thumbnail calls =
     (let cp = content_prompt video_title video_description original_thumbnail;
          idea_text = (if \<not> truthy (opt_str api_key) then idea_without_key else []);
          data_url = placeholder_image fill render video_title
      in if truthy (opt_str api_key) \<and> genai \<noteq> None then
           (case genai of
              None \<Rightarrow> (Inr \<lparr>prompt = cp, idea = idea_text, image_data_url = Some data_url\<rparr>, calls)
            | Some g \<Rightarrow>
                let text_call = GenerateContent text_model [base_prompt, cp];
                    image_call = GenerateImages image_model (image_prompt video_title)
                in case generate_content g text_model [base_prompt, cp] of
                     Raises \<Rightarrow> (Inl GenerationError, calls @ [text_call])
                   | Returns text \<Rightarrow>
                       (Inr \<lparr>prompt = cp, idea = py_strip text,
                             image_data_url = Some
                               (case generate_images g image_model
                                       (image_prompt video_title) of
                                  Raises \<Rightarrow> data_url
                                | Returns [] \<Rightarrow> data_url
                                | Returns (ImageBytes b # _) \<Rightarrow> image_to_data_url b
                                | Returns (ImageObject # _) \<Rightarrow> data_url)\<rparr>,
                        calls @ [text_call, image_call]))
         else (Inr \<lparr>prompt = cp, idea = idea_text, image_data_url = Some data_url\<rparr>, calls))"

text \<open>
  Concrete surroundings for the examples: a wrapping that leaves the text as it is, a
  renderer that writes the same four bytes for every text, a generation library in
  which every call raises, and one whose text generation answers and whose image
  generation raises.
\<close>

definition plain_fill :: "pystr \<Rightarrow> pystr" where
  "plain_fill text = text"

definition blank_png :: "pystr \<Rightarrow> 8 word list" where
  "blank_png text = [137, 80, 78, 71]"

definition failing_genai :: genai_service where
  "failing_genai =
     \<lparr>generate_content = (\<lambda>model prompts. Raises),
      generate_images = (\<lambda>model prompt. Raises)\<rparr>"

definition text_only_genai :: genai_service where
  "text_only_genai =
     \<lparr>generate_content = (\<lambda>model prompts. Returns (ascii '' Three concepts. '')),
      generate_images = (\<lambda>model prompt. Raises)\<rparr>"


section \<open>Facts about the Python values\<close>

lemma truthy_opt_str: "truthy (opt_str k) \<longleftrightarrow> k \<noteq> None \<and> k \<noteq> Some []"
  by (cases k) auto


section \<open>Properties of channel resolution\<close>

lemma channel_id_at_append:
  "is_channel_id U m \<Longrightarrow> channel_id_at U (m @ post)"
  by (simp add: is_channel_id_def channel_id_at_def)

lemma channel_id_at_take:
  "channel_id_at U s \<Longrightarrow> is_channel_id U (take 24 s)"
  by (simp add: is_channel_id_def channel_id_at_def drop_take min_def)

lemma search_channel_id_Some:
  "search_channel_id U s = Some m \<Longrightarrow>
     \<exists>pre post. s = pre @ m @ post \<and> is_channel_id U m \<and>
       (\<forall>i<length pre. \<not> channel_id_at U (drop i s))"
proof (induction s)
  case Nil
  then show ?case by simp
next
  case (Cons c cs)
  show ?case
  proof (cases "channel_id_at U (c # cs)")
    case True
    with Cons.prems have m: "m = take 24 (c # cs)" by simp
    have "c # cs = [] @ m @ drop 24 (c # cs)" unfolding m by simp
    moreover have "is_channel_id U m" unfolding m using True by (rule channel_id_at_take)
    ultimately show ?thesis by (metis length_0_conv not_less_zero list.size(3))
  next
    case False
    with Cons.prems have "search_channel_id U cs = Some m" by simp
    from Cons.IH [OF this] obtain pre post where
      s: "cs = pre @ m @ post" and m: "is_channel_id U m"
      and l: "\<forall>i<length pre. \<not> channel_id_at U (drop i cs)" by blast
    have "\<forall>i<length (c # pre). \<not> channel_id_at U (drop i (c # cs))"
    proof (intro allI impI)
      fix i assume "i < length (c # pre)"
      then show "\<not> channel_id_at U (drop i (c # cs))"
        using False l by (cases i) auto
    qed
    moreover have "c # cs = (c # pre) @ m @ post" using s by simp
    ultimately show ?thesis using m by blast
  qed
qed

lemma search_channel_id_None:
  "search_channel_id U s = None \<Longrightarrow> \<not> channel_id_at U (drop i s)"
proof (induction s arbitrary: i)
  case Nil
  then show ?case by (simp add: channel_id_at_def)
next
  case (Cons c cs)
  then show ?case by (cases i) (auto split: if_splits)
qed

lemma search_channel_id_None_iff:
  "search_channel_id U s = None \<longleftrightarrow> \<not> contains_channel_id U s"
proof
  assume n: "search_channel_id U s = None"
  show "\<not> contains_channel_id U s"
  proof
    assume "contains_channel_id U s"
    then obtain pre m post where s: "s = pre @ m @ post" and m: "is_channel_id U m"
      unfolding contains_channel_id_def by blast
    have "channel_id_at U (drop (length pre) s)"
      unfolding s using m by (simp add: channel_id_at_append)
    with search_channel_id_None [OF n] show False by blast
  qed
next
  assume c: "\<not> contains_channel_id U s"
  show "search_channel_id U s = None"
  proof (cases "search_channel_id U s")
    case None
    then show ?thesis .
  next
    case (Some m)
    from search_channel_id_Some [OF this] have "contains_channel_id U s"
      unfolding contains_channel_id_def by blast
    with c show ?thesis by simp
  qed
qed

lemma search_handle_nonempty:
  "search_handle v = Some h \<Longrightarrow> h \<noteq> []"
proof (induction v)
  case Nil
  then show ?case by simp
next
  case (Cons c cs)
  show ?case
  proof (cases "c = 64 \<and> (case cs of [] \<Rightarrow> False | d # _ \<Rightarrow> handle_char d)")
    case True
    then obtain d ds where "cs = d # ds" "handle_char d" by (cases cs) auto
    with True Cons.prems show ?thesis by auto
  next
    case False
    with Cons show ?thesis by auto
  qed
qed

lemma search_handle_token:
  "handle_char c \<Longrightarrow> search_handle (pre @ 64 # c # post) \<noteq> None"
  by (induction pre) auto

lemma dropWhile_at_nonempty:
  "\<exists>c\<in>set v. c \<noteq> (64::nat) \<Longrightarrow> dropWhile (\<lambda>c. c = 64) v \<noteq> []"
  by (induction v) auto

lemma extract_handle_shaped:
  assumes "has_handle_token v \<or> (take 1 v = ascii ''@'' \<and> (\<exists>c\<in>set v. c \<noteq> 64))"
  shows "\<exists>h. extract_handle v = Some h \<and> h \<noteq> []"
  using assms
proof
  assume "has_handle_token v"
  then obtain pre c post where "v = pre @ 64 # c # post" "handle_char c"
    unfolding has_handle_token_def by blast
  with search_handle_token [of c pre post] obtain h where "search_handle v = Some h"
    by auto
  with search_handle_nonempty [OF this] show ?thesis
    by (simp add: extract_handle_def)
next
  assume a: "take 1 v = ascii ''@'' \<and> (\<exists>c\<in>set v. c \<noteq> 64)"
  show ?thesis
  proof (cases "search_handle v")
    case None
    with a dropWhile_at_nonempty [of v] show ?thesis by (simp add: extract_handle_def)
  next
    case (Some h)
    with search_handle_nonempty [OF Some] show ?thesis by (simp add: extract_handle_def)
  qed
qed

text \<open>
  Claim C4, as amended. A reference that contains an \<open>@handle\<close> token, or begins with
  \<open>@\<close> and does not consist of \<open>@\<close> characters only, that contains no literal channel
  ID and is not a string of at least 24 characters starting with \<open>UC\<close>, resolved
  without an API key (\<open>None\<close> or the empty string), fails with the error of the missing
  key, and the log of network calls is unchanged.
\<close>

theorem resolve_handle_without_key:
  assumes "has_handle_token v \<or> (take 1 v = ascii ''@'' \<and> (\<exists>c\<in>set v. c \<noteq> 64))"
    and "\<not> contains_channel_id U v"
    and "\<not> (take 2 v = ascii ''UC'' \<and> 24 \<le> length v)"
    and "api_key = None \<or> api_key = Some []"
  shows "resolve_channel_identifier U api_key net v calls = (Inl HandleSearchNeedsApiKey, calls)"
proof -
  from extract_handle_shaped [OF assms(1)] obtain h where
    h: "extract_handle v = Some h" "h \<noteq> []" by blast
  have "search_channel_id U v = None"
    using assms(2) by (simp add: search_channel_id_None_iff)
  with assms(3) have "extract_channel_id U v = None"
    by (simp add: extract_channel_id_def)
  with h assms(4) show ?thesis
    by (auto simp: resolve_channel_identifier_def)
qed

text \<open>
  Claim C6. A reference that contains a literal channel ID resolves to a substring of
  that shape, the leftmost one, whatever else the reference holds, whatever the API key
  and the network are, and the log of network calls is unchanged.
\<close>

theorem resolve_literal_id:
  assumes "contains_channel_id U v"
  shows "\<exists>pre m post. v = pre @ m @ post \<and> is_channel_id U m \<and>
           (\<forall>i<length pre. \<not> channel_id_at U (drop i v)) \<and>
           resolve_channel_identifier U api_key net v calls = (Inr (JStr m), calls)"
proof -
  from assms obtain m where m: "search_channel_id U v = Some m"
    using search_channel_id_None_iff [of U v] by (cases "search_channel_id U v") auto
  from search_channel_id_Some [OF m] obtain pre post where
    p: "v = pre @ m @ post" "is_channel_id U m"
       "\<forall>i<length pre. \<not> channel_id_at U (drop i v)" by blast
  from p(2) have "m \<noteq> []" by (auto simp: is_channel_id_def)
  with m have "resolve_channel_identifier U api_key net v calls = (Inr (JStr m), calls)"
    by (simp add: resolve_channel_identifier_def extract_channel_id_def)
  with p show ?thesis by blast
qed

text \<open>
  Claim C10, as amended. A string that starts with \<open>UC\<close>, has at least 24 characters and
  contains no literal channel ID resolves to itself, and the log of network calls is
  unchanged. (When it contains a literal ID, the leftmost one is returned instead:
  that is C6.)
\<close>

theorem resolve_bare_uc_string:
  assumes "take 2 v = ascii ''UC''" and "24 \<le> length v" and "\<not> contains_channel_id U v"
  shows "resolve_channel_identifier U api_key net v calls = (Inr (JStr v), calls)"
proof -
  have "search_channel_id U v = None"
    using assms(3) by (simp add: search_channel_id_None_iff)
  with assms(1,2) have "extract_channel_id U v = Some v"
    by (simp add: extract_channel_id_def)
  moreover have "v \<noteq> []" using assms(2) by auto
  ultimately show ?thesis by (simp add: resolve_channel_identifier_def)
qed


text \<open>The unfolding that evaluates the resolver on a concrete reference.\<close>

lemmas resolve_eval =
  resolve_channel_identifier_def extract_channel_id_def extract_handle_def channel_id_at_def
  ascii_def handle_char_def id_char_def word_char_def ascii_alnum_def ascii_only_def

text \<open>
  The hypotheses of C4 hold at \<open>youtube.com/@someone\<close>.
\<close>

theorem resolve_handle_without_key_witness:
  "(has_handle_token (ascii ''youtube.com/@someone'') \<or>
      (take 1 (ascii ''youtube.com/@someone'') = ascii ''@'' \<and>
       (\<exists>c\<in>set (ascii ''youtube.com/@someone''). c \<noteq> 64))) \<and>
   \<not> contains_channel_id ascii_only (ascii ''youtube.com/@someone'') \<and>
   \<not> (take 2 (ascii ''youtube.com/@someone'') = ascii ''UC'' \<and>
      24 \<le> length (ascii ''youtube.com/@someone'')) \<and>
   resolve_channel_identifier ascii_only None offline (ascii ''youtube.com/@someone'') [] =
     (Inl HandleSearchNeedsApiKey, [])"
proof -
  let ?v = "ascii ''youtube.com/@someone''"
  have "?v = ascii ''youtube.com/'' @ 64 # 115 # ascii ''omeone'' \<and> handle_char 115"
    by (simp add: ascii_def handle_char_def ascii_alnum_def)
  then have "has_handle_token ?v"
    unfolding has_handle_token_def by blast
  then have h1: "has_handle_token ?v \<or> (take 1 ?v = ascii ''@'' \<and> (\<exists>c\<in>set ?v. c \<noteq> 64))"
    by (rule disjI1)
  have "search_channel_id ascii_only ?v = None"
    by (simp add: resolve_eval)
  then have h2: "\<not> contains_channel_id ascii_only ?v"
    by (simp add: search_channel_id_None_iff)
  have h3: "\<not> (take 2 ?v = ascii ''UC'' \<and> 24 \<le> length ?v)"
    by (simp add: ascii_def)
  have h4: "(None :: pystr option) = None \<or> None = Some []"
    by simp
  from resolve_handle_without_key [OF h1 h2 h3 h4, of offline "[]"] h1 h2 h3
  show ?thesis by blast
qed

text \<open>
  C4 as stated fails in two places. \<open>UC@aaaaaaaaaaaaaaaaaaaaa\<close> (24 characters) contains
  the handle token \<open>@aaa...\<close> and no literal ID, yet the bare-ID fallback of
  \<open>_extract_channel_id\<close> returns it verbatim. \<open>@\<close> begins with \<open>@\<close>, yet
  \<open>lstrip\<close> leaves an empty handle and the result is \<open>None\<close>.
\<close>

theorem resolve_handle_without_key_counterexample:
  "(has_handle_token (ascii ''UC@aaaaaaaaaaaaaaaaaaaaa'') \<and>
    \<not> contains_channel_id ascii_only (ascii ''UC@aaaaaaaaaaaaaaaaaaaaa'') \<and>
    resolve_channel_identifier ascii_only None offline (ascii ''UC@aaaaaaaaaaaaaaaaaaaaa'') [] =
      (Inr (JStr (ascii ''UC@aaaaaaaaaaaaaaaaaaaaa'')), [])) \<and>
   (take 1 (ascii ''@'') = ascii ''@'' \<and>
    \<not> contains_channel_id ascii_only (ascii ''@'') \<and>
    resolve_channel_identifier ascii_only None offline (ascii ''@'') [] = (Inr JNull, []))"
proof -
  let ?v = "ascii ''UC@aaaaaaaaaaaaaaaaaaaaa''"
  have "?v = ascii ''UC'' @ 64 # 97 # ascii ''aaaaaaaaaaaaaaaaaaaa'' \<and> handle_char 97"
    by (simp add: ascii_def handle_char_def ascii_alnum_def)
  then have a: "has_handle_token ?v"
    unfolding has_handle_token_def by blast
  have "search_channel_id ascii_only ?v = None"
    by (simp add: resolve_eval)
  then have b: "\<not> contains_channel_id ascii_only ?v"
    by (simp add: search_channel_id_None_iff)
  have c: "resolve_channel_identifier ascii_only None offline ?v [] = (Inr (JStr ?v), [])"
    by (simp add: resolve_eval)
  have "search_channel_id ascii_only (ascii ''@'') = None"
    by (simp add: resolve_eval)
  then have d: "\<not> contains_channel_id ascii_only (ascii ''@'')"
    by (simp add: search_channel_id_None_iff)
  have e: "take 1 (ascii ''@'') = ascii ''@''"
    by (simp add: ascii_def)
  have f: "resolve_channel_identifier ascii_only None offline (ascii ''@'') [] = (Inr JNull, [])"
    by (simp add: resolve_eval)
  from a b c d e f show ?thesis by blast
qed

text \<open>
  C6 at a reference that holds both an \<open>@handle\<close> token and a literal ID.
\<close>

theorem resolve_literal_id_witness:
  "contains_channel_id ascii_only (ascii ''youtube.com/@someone/UCabcdefghijklmnopqrstuv'') \<and>
   (\<exists>pre m post.
      ascii ''youtube.com/@someone/UCabcdefghijklmnopqrstuv'' = pre @ m @ post \<and>
      is_channel_id ascii_only m \<and>
      resolve_channel_identifier ascii_only None offline
        (ascii ''youtube.com/@someone/UCabcdefghijklmnopqrstuv'') [] = (Inr (JStr m), []))"
proof -
  let ?v = "ascii ''youtube.com/@someone/UCabcdefghijklmnopqrstuv''"
  have "search_channel_id ascii_only ?v \<noteq> None"
    by (simp add: resolve_eval)
  then have h: "contains_channel_id ascii_only ?v"
    by (simp add: search_channel_id_None_iff)
  from resolve_literal_id [OF h, of None offline "[]"] h show ?thesis by blast
qed

text \<open>
  C10 at a string with spaces, which the pattern does not match.
\<close>

theorem resolve_bare_uc_string_witness:
  "take 2 (ascii ''UC channel of someone else'') = ascii ''UC'' \<and>
   24 \<le> length (ascii ''UC channel of someone else'') \<and>
   \<not> contains_channel_id ascii_only (ascii ''UC channel of someone else'') \<and>
   resolve_channel_identifier ascii_only None offline (ascii ''UC channel of someone else'') [] =
     (Inr (JStr (ascii ''UC channel of someone else'')), [])"
proof -
  let ?v = "ascii ''UC channel of someone else''"
  have h1: "take 2 ?v = ascii ''UC''" by (simp add: ascii_def)
  have h2: "24 \<le> length ?v" by (simp add: ascii_def)
  have "search_channel_id ascii_only ?v = None"
    by (simp add: resolve_eval)
  then have h3: "\<not> contains_channel_id ascii_only ?v"
    by (simp add: search_channel_id_None_iff)
  from resolve_bare_uc_string [OF h1 h2 h3, of None offline "[]"] h1 h2 h3
  show ?thesis by blast
qed

text \<open>
  C10 as stated fails at \<open>UC\<close> followed by 23 letters \<open>a\<close>: the string starts with
  \<open>UC\<close> and has 25 characters, and the result is its first 24 characters, not the
  string.
\<close>

theorem resolve_bare_uc_string_counterexample:
  "take 2 (ascii ''UCaaaaaaaaaaaaaaaaaaaaaaa'') = ascii ''UC'' \<and>
   24 \<le> length (ascii ''UCaaaaaaaaaaaaaaaaaaaaaaa'') \<and>
   resolve_channel_identifier ascii_only None offline (ascii ''UCaaaaaaaaaaaaaaaaaaaaaaa'') [] =
     (Inr (JStr (ascii ''UCaaaaaaaaaaaaaaaaaaaaaa'')), []) \<and>
   ascii ''UCaaaaaaaaaaaaaaaaaaaaaa'' \<noteq> ascii ''UCaaaaaaaaaaaaaaaaaaaaaaa''"
  by (simp add: resolve_eval)

text \<open>
  Claim C5, as amended. The channel URL with the 24-character ID
  \<open>UCabcdefghijklmnopqrstuv\<close> resolves to that ID, and the URL of the claim, whose ID has
  23 characters, resolves to \<open>None\<close>; the log of network calls is unchanged in both.
\<close>

theorem resolve_channel_url_example:
  "resolve_channel_identifier U api_key net
     (ascii ''https://www.youtube.com/channel/UCabcdefghijklmnopqrstuv'') calls =
     (Inr (JStr (ascii ''UCabcdefghijklmnopqrstuv'')), calls) \<and>
   resolve_channel_identifier U api_key net
     (ascii ''https://www.youtube.com/channel/UCabcdefghijklmnopqrstu'') calls =
     (Inr JNull, calls)"
  by (simp add: resolve_eval)

text \<open>
  C5 as stated fails: \<open>UCabcdefghijklmnopqrstu\<close> has 23 characters, the pattern needs 24,
  and the result is \<open>None\<close>.
\<close>

theorem resolve_channel_url_example_counterexample:
  "length (ascii ''UCabcdefghijklmnopqrstu'') = 23 \<and>
   resolve_channel_identifier ascii_only None offline
     (ascii ''https://www.youtube.com/channel/UCabcdefghijklmnopqrstu'') [] = (Inr JNull, [])"
  by (simp add: resolve_eval)

section \<open>Facts about the float arithmetic\<close>

lemma pow2_powi: "pow2 k = 2 powi k"
  by (simp add: pow2_def power_int_def inverse_eq_divide power_one_over)

lemma pow2_pos: "0 < pow2 k"
  by (simp add: pow2_powi)

lemma pow2_mono: "i \<le> j \<Longrightarrow> pow2 i \<le> pow2 j"
  by (simp add: pow2_powi power_int_increasing)

lemma ilog2_le:
  assumes "0 < a"
  shows "pow2 (ilog2 a) \<le> a"
proof -
  obtain p d where pd: "quotient_of a = (p, d)" by (cases "quotient_of a")
  then have d: "0 < d" and a: "a = of_int p / of_int d"
    by (auto dest: quotient_of_denom_pos quotient_of_div)
  from assms a d have p: "0 < p" by (simp add: zero_less_divide_iff)
  let ?k = "bitlen p - bitlen d"
  have bp: "2 ^ nat (bitlen p - 1) \<le> p" using bitlen_bounds [OF p] by simp
  have bd: "d < 2 ^ nat (bitlen d)" using bitlen_bounds [OF d] by simp
  have p1: "1 \<le> bitlen p" using p bitlen_eq_zero_iff [of p] bitlen_nonneg [of p] by linarith
  have "pow2 (?k - 1) = 2 powi (bitlen p - 1) / 2 powi (bitlen d)"
    using power_int_diff [of "2::rat" "bitlen p - 1" "bitlen d"]
    by (simp add: pow2_powi algebra_simps)
  also have "\<dots> = 2 ^ nat (bitlen p - 1) / 2 ^ nat (bitlen d)"
    using p1 bitlen_nonneg [of d] by (simp add: power_int_def)
  also have "\<dots> \<le> of_int p / of_int d"
  proof -
    have "(2::rat) ^ nat (bitlen p - 1) \<le> of_int p"
      using bp by (metis of_int_le_iff of_int_numeral of_int_power)
    moreover have "of_int d \<le> (2::rat) ^ nat (bitlen d)"
      using bd by (metis less_imp_le of_int_le_iff of_int_numeral of_int_power)
    moreover have "(0::rat) < of_int d" using d by simp
    moreover have "(0::rat) \<le> of_int p" using p by simp
    ultimately show ?thesis
      by (intro frac_le)
  qed
  finally have "pow2 (?k - 1) \<le> a" using a by simp
  then show ?thesis
    using pd by (simp add: ilog2_def Let_def)
qed

lemma round_half_even_nonneg: "0 \<le> x \<Longrightarrow> 0 \<le> round_half_even x"
  by (simp add: round_half_even_def Let_def)

lemma round_half_even_le: "x \<le> of_int N \<Longrightarrow> round_half_even x \<le> N"
proof -
  assume a: "x \<le> of_int N"
  then have f: "\<lfloor>x\<rfloor> \<le> N" by (simp add: floor_le_iff) 
  show ?thesis
  proof (cases "x - of_int \<lfloor>x\<rfloor> < 1 / 2")
    case True
    with f show ?thesis by (simp add: round_half_even_def Let_def)
  next
    case False
    then have "of_int \<lfloor>x\<rfloor> < x" by linarith
    with a have "\<lfloor>x\<rfloor> < N" by (metis le_less_trans not_less of_int_less_iff less_le_trans)
    then show ?thesis by (simp add: round_half_even_def Let_def)
  qed
qed

lemma round_double_nonneg:
  "0 \<le> q \<Longrightarrow> nonneg (round_double q)"
  using pow2_pos
  by (auto simp: round_double_def Let_def round_half_even_nonneg less_imp_le
           intro!: mult_nonneg_nonneg)

lemma round_double_le_100:
  assumes "0 \<le> q" and "q \<le> 100"
  shows "\<exists>r. round_double q = Fin r \<and> 0 \<le> r \<and> r \<le> 100"
proof (cases "q = 0")
  case True
  then show ?thesis by (simp add: round_double_def)
next
  case False
  with assms have q: "0 < q" by simp
  let ?e = "max (ilog2 q) (- 1022)"
  let ?u = "pow2 (?e - 52)"
  let ?r = "of_int (round_half_even (q / ?u)) * ?u"
  have e: "?e \<le> 6"
  proof (rule ccontr)
    assume "\<not> ?e \<le> 6"
    then have "7 \<le> ilog2 q" by simp
    then have "pow2 7 \<le> pow2 (ilog2 q)" by (rule pow2_mono)
    also have "\<dots> \<le> q" using q by (rule ilog2_le)
    finally show False using assms(2) by (simp add: pow2_def)
  qed
  have u: "0 < ?u" by (rule pow2_pos)
  have "?u = 1 / 2 ^ nat (52 - ?e)"
    using e by (simp add: pow2_def)
  then have N: "100 / ?u = of_int (100 * 2 ^ nat (52 - ?e))"
    by simp
  have "q / ?u \<le> 100 / ?u"
    using assms(2) u by (simp add: divide_right_mono)
  then have "round_half_even (q / ?u) \<le> 100 * 2 ^ nat (52 - ?e)"
    unfolding N by (rule round_half_even_le)
  then have "(of_int (round_half_even (q / ?u)) :: rat) \<le> of_int (100 * 2 ^ nat (52 - ?e))"
    by (simp only: of_int_le_iff)
  then have "?r \<le> of_int (100 * 2 ^ nat (52 - ?e)) * ?u"
    using u by (simp add: mult_right_mono)
  also have "\<dots> = 100" using N u by (simp add: field_simps)
  finally have r100: "?r \<le> 100" .
  have r0: "0 \<le> ?r"
    using q u by (simp add: round_half_even_nonneg)
  have "\<not> pow2 1024 \<le> ?r"
    using r100 by (simp add: pow2_def)
  with q r0 r100 show ?thesis
    by (simp add: round_double_def Let_def)
qed


lemma ilog2_less:
  assumes "0 < a"
  shows "a < pow2 (ilog2 a + 1)"
proof -
  obtain p d where pd: "quotient_of a = (p, d)" by (cases "quotient_of a")
  then have d: "0 < d" and a: "a = of_int p / of_int d"
    by (auto dest: quotient_of_denom_pos quotient_of_div)
  from assms a d have p: "0 < p" by (simp add: zero_less_divide_iff)
  let ?k = "bitlen p - bitlen d"
  have bp: "p < 2 ^ nat (bitlen p)" using bitlen_bounds [OF p] by simp
  have bd: "2 ^ nat (bitlen d - 1) \<le> d" using bitlen_bounds [OF d] by simp
  have d1: "1 \<le> bitlen d" using d bitlen_eq_zero_iff [of d] bitlen_nonneg [of d] by linarith
  have "of_int p / of_int d < (2::rat) ^ nat (bitlen p) / 2 ^ nat (bitlen d - 1)"
  proof -
    have "of_int p < (2::rat) ^ nat (bitlen p)"
      using bp by (metis of_int_less_iff of_int_numeral of_int_power)
    moreover have "(2::rat) ^ nat (bitlen d - 1) \<le> of_int d"
      using bd by (metis of_int_le_iff of_int_numeral of_int_power)
    moreover have "(0::rat) \<le> of_int p" using p by simp
    moreover have "(0::rat) < 2 ^ nat (bitlen d - 1)" by simp
    ultimately show ?thesis
      by (intro frac_less) 
  qed
  also have "\<dots> = 2 powi (bitlen p) / 2 powi (bitlen d - 1)"
    using d1 bitlen_nonneg [of p] by (simp add: power_int_def)
  also have "\<dots> = pow2 (?k + 1)"
    using power_int_diff [of "2::rat" "bitlen p" "bitlen d - 1"]
    by (simp add: pow2_powi algebra_simps)
  finally have k1: "a < pow2 (?k + 1)" using a by simp
  show ?thesis
  proof (cases "pow2 ?k \<le> a")
    case True
    with k1 pd show ?thesis by (simp add: ilog2_def Let_def)
  next
    case False
    with pd show ?thesis by (simp add: ilog2_def Let_def)
  qed
qed

lemma ilog2_eqI:
  assumes "pow2 k \<le> a" and "a < pow2 (k + 1)"
  shows "ilog2 a = k"
proof -
  have a: "0 < a" using assms(1) pow2_pos [of k] by simp
  have "\<not> ilog2 a < k"
  proof
    assume "ilog2 a < k"
    then have "pow2 (ilog2 a + 1) \<le> pow2 k" by (intro pow2_mono) simp
    with assms(1) ilog2_less [OF a] show False by simp
  qed
  moreover have "\<not> k < ilog2 a"
  proof
    assume "k < ilog2 a"
    then have "pow2 (k + 1) \<le> pow2 (ilog2 a)" by (intro pow2_mono) simp
    with assms(2) ilog2_le [OF a] show False by simp
  qed
  ultimately show ?thesis by simp
qed

lemma round_double_eval:
  assumes "pow2 k \<le> q" and "q < pow2 (k + 1)" and "- 1022 \<le> k"
  shows "round_double q =
           (if pow2 1024 \<le> of_int (round_half_even (q / pow2 (k - 52))) * pow2 (k - 52)
            then PInf
            else Fin (of_int (round_half_even (q / pow2 (k - 52))) * pow2 (k - 52)))"
proof -
  have q: "0 < q" using assms(1) pow2_pos [of k] by simp
  have "ilog2 q = k" using assms(1,2) by (rule ilog2_eqI)
  with q assms(3) show ?thesis
    by (simp add: round_double_def Let_def max_def)
qed

lemma pow2_numeral [simp]:
  "pow2 0 = 1" "pow2 (numeral n) = 2 ^ numeral n" "pow2 (- numeral n) = 1 / 2 ^ numeral n"
  "pow2 1 = 2" "pow2 (- 1) = 1 / 2"
  by (simp_all add: pow2_def)

lemma round_half_even_fraction:
  assumes "0 < d"
  shows "round_half_even (of_int n / of_int d) =
           (if 2 * (n mod d) < d then n div d
            else if d < 2 * (n mod d) then n div d + 1
            else if even (n div d) then n div d else n div d + 1)"
proof -
  let ?x = "of_int n / of_int d :: rat"
  have f: "\<lfloor>?x\<rfloor> = n div d" by (simp add: floor_divide_of_int_eq)
  have "of_int n = (of_int (n div d) * of_int d + of_int (n mod d) :: rat)"
    by (metis of_int_add of_int_mult div_mult_mod_eq)
  then have "?x - of_int (n div d) = of_int (n mod d) / of_int d"
    using assms by (simp add: field_simps)
  then have m: "?x - of_int \<lfloor>?x\<rfloor> = of_int (n mod d) / of_int d"
    using f by simp
  have dpos: "(0::rat) < of_int d" using assms by simp
  have "of_int (n mod d) / of_int d < (1 / 2 :: rat) \<longleftrightarrow>
          (of_int (2 * (n mod d)) :: rat) < of_int d"
    using dpos by (simp add: field_simps)
  then have d1: "?x - of_int \<lfloor>?x\<rfloor> < 1 / 2 \<longleftrightarrow> 2 * (n mod d) < d"
    unfolding m of_int_less_iff .
  have "(1 / 2 :: rat) < of_int (n mod d) / of_int d \<longleftrightarrow>
          (of_int d :: rat) < of_int (2 * (n mod d))"
    using dpos by (simp add: field_simps)
  then have d2: "1 / 2 < ?x - of_int \<lfloor>?x\<rfloor> \<longleftrightarrow> d < 2 * (n mod d)"
    unfolding m of_int_less_iff .
  show ?thesis
    unfolding round_half_even_def Let_def d1 d2 by (simp only: f)
qed

lemma round_half_even_numeral [simp]:
  "round_half_even (numeral a / numeral b) =
     (if 2 * (numeral a mod numeral b) < (numeral b :: int) then numeral a div numeral b
      else if (numeral b :: int) < 2 * (numeral a mod numeral b) then numeral a div numeral b + 1
      else if even (numeral a div numeral b :: int) then numeral a div numeral b
      else numeral a div numeral b + 1)"
  "round_half_even (numeral a) = numeral a"
  "round_half_even 0 = 0"
  using round_half_even_fraction [of "numeral b" "numeral a"]
  by (simp_all add: round_half_even_def)

lemma dadd_nonneg: "nonneg a \<Longrightarrow> nonneg b \<Longrightarrow> nonneg (dadd a b)"
  by (cases a; cases b) (simp_all add: round_double_nonneg)

lemma dmul_positive_constant:
  assumes "nonneg a \<or> a = NaN" and "0 < c"
  shows "nonneg (dmul a (Fin c)) \<or> dmul a (Fin c) = NaN"
proof (cases a)
  case (Fin r)
  with assms have "0 \<le> r * c" by simp
  with Fin show ?thesis by (simp add: round_double_nonneg)
qed (use assms in \<open>simp_all\<close>)

lemma py_max_one:
  "py_max v (Fin 1) = NaN \<or> py_max v (Fin 1) = PInf \<or> (\<exists>r. py_max v (Fin 1) = Fin r \<and> 1 \<le> r)"
  by (cases v) (auto simp: py_max_def)

lemma ddiv_nonneg:
  assumes "nonneg x" and "m = NaN \<or> m = PInf \<or> (\<exists>r. m = Fin r \<and> 1 \<le> r)"
  shows "\<exists>y. ddiv x m = Inr y \<and> (nonneg y \<or> y = NaN)"
proof (cases m)
  case (Fin b)
  with assms(2) have b: "1 \<le> b" by simp
  show ?thesis
  proof (cases x)
    case (Fin a)
    with assms(1) b have "0 \<le> a / b" by simp
    with Fin \<open>m = Fin b\<close> b show ?thesis by (simp add: round_double_nonneg)
  qed (use assms(1) b \<open>m = Fin b\<close> in \<open>simp_all\<close>)
next
  case PInf
  with assms(1) show ?thesis by (cases x) simp_all
next
  case NInf
  with assms(2) show ?thesis by simp
next
  case NaN
  then show ?thesis by (cases x) simp_all
qed

lemma py_min_100:
  assumes "nonneg z \<or> z = NaN"
  shows "\<exists>r. py_min (Fin 100) z = Fin r \<and> 0 \<le> r \<and> r \<le> 100"
  using assms by (cases z) (auto simp: py_min_def)

lemma py_round2_bounds:
  assumes "0 \<le> r" and "r \<le> 100"
  shows "\<exists>r'. py_round2 (Fin r) = Inr (Fin r') \<and> 0 \<le> r' \<and> r' \<le> 100"
proof -
  let ?q = "of_int (round_half_even (r * 100)) / 100 :: rat"
  have "0 \<le> round_half_even (r * 100)"
    using assms(1) by (simp add: round_half_even_nonneg)
  then have q0: "0 \<le> ?q" by simp
  have "r * 100 \<le> of_int 10000" using assms(2) by simp
  then have "round_half_even (r * 100) \<le> 10000" by (rule round_half_even_le)
  then have "(of_int (round_half_even (r * 100)) :: rat) \<le> 10000"
    by (metis of_int_le_iff of_int_numeral)
  then have q100: "?q \<le> 100" by simp
  from round_double_le_100 [OF q0 q100] show ?thesis by auto
qed

lemma ctr_score_of_bounds:
  assumes "nonneg likes" and "nonneg comments"
  shows "\<exists>r. ctr_score_of views likes comments = Inr (Fin r) \<and> 0 \<le> r \<and> r \<le> 100"
proof -
  have "nonneg (dmul comments (Fin (1 / 2))) \<or> dmul comments (Fin (1 / 2)) = NaN"
    using assms(2) by (intro dmul_positive_constant) simp_all
  moreover have "dmul comments (Fin (1 / 2)) \<noteq> NaN"
    using assms(2) by (cases comments) (simp_all add: round_double_def Let_def)
  ultimately have "nonneg (dadd likes (dmul comments (Fin (1 / 2))))"
    using assms(1) by (simp add: dadd_nonneg)
  from ddiv_nonneg [OF this py_max_one [of views]] obtain ratio where
    ratio: "ddiv (dadd likes (dmul comments (Fin (1 / 2)))) (py_max views (Fin 1)) = Inr ratio"
      "nonneg ratio \<or> ratio = NaN" by blast
  have "nonneg (dmul ratio (Fin 1200)) \<or> dmul ratio (Fin 1200) = NaN"
    using ratio(2) by (intro dmul_positive_constant) simp_all
  from py_min_100 [OF this] obtain r where
    r: "py_min (Fin 100) (dmul ratio (Fin 1200)) = Fin r" "0 \<le> r" "r \<le> 100" by blast
  from py_round2_bounds [OF r(2,3)] ratio(1) r(1) show ?thesis
    by (simp add: ctr_score_of_def)
qed

lemma dmul_commute: "dmul a b = dmul b a"
  by (cases a; cases b) (simp_all add: mult.commute)

text \<open>The floats of the two example records.\<close>

lemma round_double_0: "round_double 0 = Fin 0"
  by (simp add: round_double_def)

lemma round_double_ex1: "round_double 1000 = Fin 1000"
  by (simp add: round_double_eval [of 9])

lemma round_double_ex2: "round_double 50 = Fin 50"
  by (simp add: round_double_eval [of 5])

lemma round_double_ex3: "round_double 20 = Fin 20"
  by (simp add: round_double_eval [of 4])

lemma round_double_ex4: "round_double 10 = Fin 10"
  by (simp add: round_double_eval [of 3])

lemma round_double_ex5: "round_double 60 = Fin 60"
  by (simp add: round_double_eval [of 5])

lemma round_double_ex6: "round_double (3 / 50) = Fin (1080863910568919 / 18014398509481984)"
  by (simp add: round_double_eval [of "- 5"])

lemma round_double_ex7: "round_double (81064793292668925 / 1125899906842624) = Fin 72"
  by (simp add: round_double_eval [of 6])

lemma round_double_ex8: "round_double 72 = Fin 72"
  by (simp add: round_double_eval [of 6])

lemma round_double_ex9: "round_double 3 = Fin 3"
  by (simp add: round_double_eval [of 1])

lemma round_double_ex10: "round_double 1 = Fin 1"
  by (simp add: round_double_eval [of 0])

lemma round_double_ex11: "round_double (1 / 2) = Fin (1 / 2)"
  by (simp add: round_double_eval [of "- 1"])

lemma round_double_ex12: "round_double (7 / 2) = Fin (7 / 2)"
  by (simp add: round_double_eval [of 1])

lemma round_double_ex13: "round_double 4200 = Fin 4200"
  by (simp add: round_double_eval [of 12])

lemma round_double_ex14: "round_double 100 = Fin 100"
  by (simp add: round_double_eval [of 6])

lemmas round_double_examples =
  round_double_0 round_double_ex1 round_double_ex2 round_double_ex3 round_double_ex4 round_double_ex5 round_double_ex6 round_double_ex7
  round_double_ex8 round_double_ex9 round_double_ex10 round_double_ex11 round_double_ex12 round_double_ex13 round_double_ex14

lemmas scorer_eval =
  build_thumbnail_info_def best_thumb_def thumb_url_def counter_def ctr_score_of_def
  statistics_of_def is_ascii_digits_def digits_value_def py_max_def py_min_def ascii_def
  round_double_examples

lemma example_video_info:
  "build_thumbnail_info P example_video =
     Inr \<lparr>video_id = JStr (ascii ''v1''), title = JStr untitled, description = JStr [],
          thumbnail_url = JStr [], ctr_score = Fin 72\<rparr>"
  by (simp add: example_video_def scorer_eval)

lemma unseen_video_info:
  "build_thumbnail_info P unseen_video =
     Inr \<lparr>video_id = JStr (ascii ''v2''), title = JStr untitled, description = JStr [],
          thumbnail_url = JStr [], ctr_score = Fin 100\<rparr>"
  by (simp add: unseen_video_def scorer_eval)


section \<open>Properties of the thumbnail entries\<close>

lemma build_thumbnail_info_score:
  assumes "build_thumbnail_info P item = Inr info"
  shows "\<exists>stats views likes comments.
           py_get item (ascii ''statistics'') (JObj []) = Inr stats \<and>
           counter P stats (ascii ''viewCount'') = Inr views \<and>
           counter P stats (ascii ''likeCount'') = Inr likes \<and>
           counter P stats (ascii ''commentCount'') = Inr comments \<and>
           ctr_score_of views likes comments = Inr (ctr_score info)"
  using assms by (auto simp: build_thumbnail_info_def split: sum.splits)

lemma build_thumbnail_info_url:
  assumes "build_thumbnail_info P item = Inr info"
  shows "\<exists>snippet thumbnails bt.
           py_get item (ascii ''snippet'') (JObj []) = Inr snippet \<and>
           py_get snippet (ascii ''thumbnails'') (JObj []) = Inr thumbnails \<and>
           best_thumb thumbnails = Inr bt \<and>
           thumb_url bt = Inr (thumbnail_url info)"
  using assms by (auto simp: build_thumbnail_info_def split: sum.splits)

lemma example_video_numbers_info:
  "build_thumbnail_info P example_video_numbers =
     Inr \<lparr>video_id = JStr (ascii ''v1''), title = JStr untitled, description = JStr [],
          thumbnail_url = JStr [], ctr_score = Fin 72\<rparr>"
  by (simp add: example_video_numbers_def scorer_eval)

text \<open>
  Claim C2. When \<open>_build_thumbnail_info\<close> returns an entry for a record whose three
  counters, as \<open>float\<close> reads them, are non-negative, the score of the entry is a finite
  float between 0 and 100. (The divisor is \<open>max(views, 1)\<close>, so \<open>views = 0\<close> is as any
  other value.)
\<close>

theorem ctr_score_within_bounds:
  assumes "build_thumbnail_info P item = Inr info"
    and "py_get item (ascii ''statistics'') (JObj []) = Inr stats"
    and "counter P stats (ascii ''viewCount'') = Inr views" and "nonneg views"
    and "counter P stats (ascii ''likeCount'') = Inr likes" and "nonneg likes"
    and "counter P stats (ascii ''commentCount'') = Inr comments" and "nonneg comments"
  shows "\<exists>r. ctr_score info = Fin r \<and> 0 \<le> r \<and> r \<le> 100"
proof -
  from build_thumbnail_info_score [OF assms(1)] assms(2,3,5,7)
  have "ctr_score_of views likes comments = Inr (ctr_score info)" by auto
  with ctr_score_of_bounds [OF assms(6,8), of views] show ?thesis by auto
qed

text \<open>
  C2 at a record with no views, three likes and one comment: the score is 100.
\<close>

theorem ctr_score_within_bounds_witness:
  "build_thumbnail_info no_parse unseen_video =
     Inr \<lparr>video_id = JStr (ascii ''v2''), title = JStr untitled, description = JStr [],
          thumbnail_url = JStr [], ctr_score = Fin 100\<rparr> \<and>
   py_get unseen_video (ascii ''statistics'') (JObj []) =
     Inr (statistics_of (JStr (ascii ''0'')) (JStr (ascii ''3'')) (JStr (ascii ''1''))) \<and>
   counter no_parse (statistics_of (JStr (ascii ''0'')) (JStr (ascii ''3'')) (JStr (ascii ''1'')))
     (ascii ''viewCount'') = Inr (Fin 0) \<and> nonneg (Fin 0) \<and>
   counter no_parse (statistics_of (JStr (ascii ''0'')) (JStr (ascii ''3'')) (JStr (ascii ''1'')))
     (ascii ''likeCount'') = Inr (Fin 3) \<and> nonneg (Fin 3) \<and>
   counter no_parse (statistics_of (JStr (ascii ''0'')) (JStr (ascii ''3'')) (JStr (ascii ''1'')))
     (ascii ''commentCount'') = Inr (Fin 1) \<and> nonneg (Fin 1) \<and>
   (\<exists>r. ctr_score \<lparr>video_id = JStr (ascii ''v2''), title = JStr untitled,
                    description = JStr [], thumbnail_url = JStr [], ctr_score = Fin 100\<rparr> = Fin r \<and>
        0 \<le> r \<and> r \<le> 100)"
proof -
  let ?stats = "statistics_of (JStr (ascii ''0'')) (JStr (ascii ''3'')) (JStr (ascii ''1''))"
  have h1: "build_thumbnail_info no_parse unseen_video =
     Inr \<lparr>video_id = JStr (ascii ''v2''), title = JStr untitled, description = JStr [],
          thumbnail_url = JStr [], ctr_score = Fin 100\<rparr>"
    by (rule unseen_video_info)
  have h2: "py_get unseen_video (ascii ''statistics'') (JObj []) = Inr ?stats"
    by (simp add: unseen_video_def ascii_def)
  have h3: "counter no_parse ?stats (ascii ''viewCount'') = Inr (Fin 0)"
    by (simp add: scorer_eval)
  have h4: "counter no_parse ?stats (ascii ''likeCount'') = Inr (Fin 3)"
    by (simp add: scorer_eval)
  have h5: "counter no_parse ?stats (ascii ''commentCount'') = Inr (Fin 1)"
    by (simp add: scorer_eval)
  have n: "nonneg (Fin 0)" "nonneg (Fin 3)" "nonneg (Fin 1)" by simp_all
  from ctr_score_within_bounds [OF h1 h2 h3 n(1) h4 n(2) h5 n(3)] h1 h2 h3 h4 h5 n
  show ?thesis by blast
qed

text \<open>
  Claim C3. The score of every entry that \<open>_build_thumbnail_info\<close> returns is the value
  of the specification's formula at the three counters of the record, as \<open>float\<close> reads
  them; and the record with \<open>viewCount\<close> 1000, \<open>likeCount\<close> 50 and \<open>commentCount\<close> 20,
  given as strings of digits or as numbers, has the score 72.
\<close>

theorem ctr_score_formula:
  "(build_thumbnail_info P item = Inr info \<longrightarrow>
      (\<exists>stats views likes comments.
         py_get item (ascii ''statistics'') (JObj []) = Inr stats \<and>
         counter P stats (ascii ''viewCount'') = Inr views \<and>
         counter P stats (ascii ''likeCount'') = Inr likes \<and>
         counter P stats (ascii ''commentCount'') = Inr comments \<and>
         spec_ctr_score likes comments views = Inr (ctr_score info))) \<and>
   build_thumbnail_info P example_video =
     Inr \<lparr>video_id = JStr (ascii ''v1''), title = JStr untitled, description = JStr [],
          thumbnail_url = JStr [], ctr_score = Fin 72\<rparr> \<and>
   build_thumbnail_info P example_video_numbers =
     Inr \<lparr>video_id = JStr (ascii ''v1''), title = JStr untitled, description = JStr [],
          thumbnail_url = JStr [], ctr_score = Fin 72\<rparr>"
proof (intro conjI impI)
  assume "build_thumbnail_info P item = Inr info"
  from build_thumbnail_info_score [OF this] obtain stats views likes comments where
    s: "py_get item (ascii ''statistics'') (JObj []) = Inr stats"
       "counter P stats (ascii ''viewCount'') = Inr views"
       "counter P stats (ascii ''likeCount'') = Inr likes"
       "counter P stats (ascii ''commentCount'') = Inr comments"
       "ctr_score_of views likes comments = Inr (ctr_score info)" by blast
  have "spec_ctr_score likes comments views = ctr_score_of views likes comments"
    by (simp add: spec_ctr_score_def ctr_score_of_def dmul_commute [of "Fin (1 / 2)"])
  with s show "\<exists>stats views likes comments.
         py_get item (ascii ''statistics'') (JObj []) = Inr stats \<and>
         counter P stats (ascii ''viewCount'') = Inr views \<and>
         counter P stats (ascii ''likeCount'') = Inr likes \<and>
         counter P stats (ascii ''commentCount'') = Inr comments \<and>
         spec_ctr_score likes comments views = Inr (ctr_score info)" by auto
next
  show "build_thumbnail_info P example_video =
     Inr \<lparr>video_id = JStr (ascii ''v1''), title = JStr untitled, description = JStr [],
          thumbnail_url = JStr [], ctr_score = Fin 72\<rparr>"
    by (rule example_video_info)
next
  show "build_thumbnail_info P example_video_numbers =
     Inr \<lparr>video_id = JStr (ascii ''v1''), title = JStr untitled, description = JStr [],
          thumbnail_url = JStr [], ctr_score = Fin 72\<rparr>"
    by (rule example_video_numbers_info)
qed

text \<open>
  C3 at the example record: the formula, evaluated at the floats 50, 20 and 1000,
  gives the score of its entry.
\<close>

theorem ctr_score_formula_witness:
  "build_thumbnail_info no_parse example_video =
     Inr \<lparr>video_id = JStr (ascii ''v1''), title = JStr untitled, description = JStr [],
          thumbnail_url = JStr [], ctr_score = Fin 72\<rparr> \<and>
   (\<exists>stats views likes comments.
      py_get example_video (ascii ''statistics'') (JObj []) = Inr stats \<and>
      counter no_parse stats (ascii ''viewCount'') = Inr views \<and>
      counter no_parse stats (ascii ''likeCount'') = Inr likes \<and>
      counter no_parse stats (ascii ''commentCount'') = Inr comments \<and>
      spec_ctr_score likes comments views = Inr (Fin 72))"
proof -
  let ?info = "\<lparr>video_id = JStr (ascii ''v1''), title = JStr untitled, description = JStr [],
          thumbnail_url = JStr [], ctr_score = Fin 72\<rparr>"
  have h: "build_thumbnail_info no_parse example_video = Inr ?info"
    by (rule example_video_info)
  from ctr_score_formula [of no_parse example_video ?info] h
  show ?thesis by simp
qed

lemma carries_url_object:
  assumes "carries_url v"
  shows "truthy v" and "py_get v (ascii ''url'') JNull = Inr (url_of v)"
    and "url_of v \<noteq> JStr []"
proof -
  from assms obtain kvs where v: "v = JObj kvs"
    by (cases v) (simp_all add: carries_url_def url_of_def)
  from assms v have "kvs \<noteq> []"
    by (auto simp: carries_url_def url_of_def)
  with v show "truthy v" by simp
  from v show "py_get v (ascii ''url'') JNull = Inr (url_of v)"
    by (simp add: url_of_def)
  from assms show "url_of v \<noteq> JStr []"
    by (auto simp: carries_url_def)
qed

lemma interface_tiers_selection:
  assumes "interface_tiers tiers"
  shows "\<exists>bt. best_thumb (JObj tiers) = Inr bt \<and>
           thumb_url bt = Inr (case first_present tiers of None \<Rightarrow> JStr [] | Some v \<Rightarrow> url_of v)"
proof -
  have a: "\<And>name v. name \<in> set tier_names \<Longrightarrow> map_of tiers (ascii name) = Some v
             \<Longrightarrow> carries_url v"
    using assms by (auto simp: interface_tiers_def list_all_iff split: option.splits)
  show ?thesis
  proof (cases "map_of tiers (ascii ''maxres'')")
    case (Some v)
    with a [of "''maxres''" v] have "carries_url v" by (simp add: tier_names_def)
    with Some carries_url_object [of v] show ?thesis
      by (simp add: best_thumb_def thumb_url_def first_present_def tier_names_def
            List.map_filter_simps)
  next
    case m: None
    show ?thesis
    proof (cases "map_of tiers (ascii ''standard'')")
      case (Some v)
      with a [of "''standard''" v] have "carries_url v" by (simp add: tier_names_def)
      with m Some carries_url_object [of v] show ?thesis
        by (simp add: best_thumb_def thumb_url_def first_present_def tier_names_def
              List.map_filter_simps)
    next
      case s: None
      show ?thesis
      proof (cases "map_of tiers (ascii ''high'')")
        case (Some v)
        with a [of "''high''" v] have "carries_url v" by (simp add: tier_names_def)
        with m s Some carries_url_object [of v] show ?thesis
          by (simp add: best_thumb_def thumb_url_def first_present_def tier_names_def
                List.map_filter_simps)
      next
        case h: None
        show ?thesis
        proof (cases "map_of tiers (ascii ''default'')")
          case (Some v)
          with a [of "''default''" v] have "carries_url v" by (simp add: tier_names_def)
          with m s h Some carries_url_object [of v] show ?thesis
            by (simp add: best_thumb_def thumb_url_def first_present_def tier_names_def
                  List.map_filter_simps)
        next
          case None
          with m s h show ?thesis
            by (simp add: best_thumb_def thumb_url_def first_present_def tier_names_def
                  List.map_filter_simps)
        qed
      qed
    qed
  qed
qed

lemma first_present_carries_url:
  assumes "interface_tiers tiers" and "first_present tiers = Some v"
  shows "carries_url v"
proof -
  from assms(2) obtain vs where
    "List.map_filter (\<lambda>name. map_of tiers (ascii name)) tier_names = v # vs"
    by (auto simp: first_present_def split: list.splits)
  then have "v \<in> set (List.map_filter (\<lambda>name. map_of tiers (ascii name)) tier_names)"
    by simp
  then obtain name where "name \<in> set tier_names" "map_of tiers (ascii name) = Some v"
    by (auto simp: List.map_filter_def)
  with assms(1) show ?thesis
    by (auto simp: interface_tiers_def list_all_iff split: option.splits)
qed

text \<open>
  Claim C7. For a video record whose thumbnails are as the statistics service
  describes them (every tier of the preference order that the record has carries a
  non-empty URL), the tiers are tried in the order \<open>maxres\<close>, \<open>standard\<close>, \<open>high\<close>,
  \<open>default\<close>; the selection raises nothing, whichever tiers are absent; the thumbnail URL
  of the entry is the URL of the first tier that the record has; and it is the empty
  string exactly when the record has none of the tiers.
\<close>

theorem thumbnail_url_selection:
  assumes "interface_tiers tiers"
  shows "(\<exists>bt. best_thumb (JObj tiers) = Inr bt \<and>
            thumb_url bt =
              Inr (case first_present tiers of None \<Rightarrow> JStr [] | Some v \<Rightarrow> url_of v)) \<and>
         (build_thumbnail_info P item = Inr info \<longrightarrow>
          py_get item (ascii ''snippet'') (JObj []) = Inr snippet \<longrightarrow>
          py_get snippet (ascii ''thumbnails'') (JObj []) = Inr (JObj tiers) \<longrightarrow>
            thumbnail_url info =
              (case first_present tiers of None \<Rightarrow> JStr [] | Some v \<Rightarrow> url_of v) \<and>
            (thumbnail_url info = JStr [] \<longleftrightarrow> first_present tiers = None))"
proof (intro conjI impI)
  show "\<exists>bt. best_thumb (JObj tiers) = Inr bt \<and>
          thumb_url bt = Inr (case first_present tiers of None \<Rightarrow> JStr [] | Some v \<Rightarrow> url_of v)"
    using assms by (rule interface_tiers_selection)
next
  assume b: "build_thumbnail_info P item = Inr info"
    and s: "py_get item (ascii ''snippet'') (JObj []) = Inr snippet"
    and t: "py_get snippet (ascii ''thumbnails'') (JObj []) = Inr (JObj tiers)"
  from build_thumbnail_info_url [OF b] s t obtain bt where
    bt: "best_thumb (JObj tiers) = Inr bt" "thumb_url bt = Inr (thumbnail_url info)"
    by auto
  with interface_tiers_selection [OF assms]
  show u: "thumbnail_url info =
             (case first_present tiers of None \<Rightarrow> JStr [] | Some v \<Rightarrow> url_of v)"
    by auto
  show "thumbnail_url info = JStr [] \<longleftrightarrow> first_present tiers = None"
  proof (cases "first_present tiers")
    case None
    with u show ?thesis by simp
  next
    case (Some v)
    from first_present_carries_url [OF assms Some] have "url_of v \<noteq> JStr []"
      by (rule carries_url_object(3))
    with u Some show ?thesis by simp
  qed
qed

text \<open>
  C7 at a record that has the tiers \<open>high\<close> and \<open>default\<close> only: \<open>maxres\<close> and
  \<open>standard\<close> are skipped and \<open>high\<close> wins.
\<close>

theorem thumbnail_url_selection_witness:
  "interface_tiers
     [(ascii ''default'', JObj [(ascii ''url'', JStr (ascii ''https://i.ytimg.com/d.jpg''))]),
      (ascii ''high'', JObj [(ascii ''url'', JStr (ascii ''https://i.ytimg.com/h.jpg''))])] \<and>
   build_thumbnail_info no_parse
     (video_with_tiers
        [(ascii ''default'', JObj [(ascii ''url'', JStr (ascii ''https://i.ytimg.com/d.jpg''))]),
         (ascii ''high'', JObj [(ascii ''url'', JStr (ascii ''https://i.ytimg.com/h.jpg''))])]) =
     Inr \<lparr>video_id = JStr (ascii ''v3''), title = JStr untitled, description = JStr [],
          thumbnail_url = JStr (ascii ''https://i.ytimg.com/h.jpg''), ctr_score = Fin 0\<rparr> \<and>
   first_present
     [(ascii ''default'', JObj [(ascii ''url'', JStr (ascii ''https://i.ytimg.com/d.jpg''))]),
      (ascii ''high'', JObj [(ascii ''url'', JStr (ascii ''https://i.ytimg.com/h.jpg''))])] =
     Some (JObj [(ascii ''url'', JStr (ascii ''https://i.ytimg.com/h.jpg''))]) \<and>
   url_of (JObj [(ascii ''url'', JStr (ascii ''https://i.ytimg.com/h.jpg''))]) =
     JStr (ascii ''https://i.ytimg.com/h.jpg'') \<and>
   thumbnail_url
     \<lparr>video_id = JStr (ascii ''v3''), title = JStr untitled, description = JStr [],
      thumbnail_url = JStr (ascii ''https://i.ytimg.com/h.jpg''), ctr_score = Fin 0\<rparr> \<noteq> JStr []"
proof -
  let ?d = "JObj [(ascii ''url'', JStr (ascii ''https://i.ytimg.com/d.jpg''))]"
  let ?h = "JObj [(ascii ''url'', JStr (ascii ''https://i.ytimg.com/h.jpg''))]"
  let ?tiers = "[(ascii ''default'', ?d), (ascii ''high'', ?h)]"
  let ?info = "\<lparr>video_id = JStr (ascii ''v3''), title = JStr untitled, description = JStr [],
          thumbnail_url = JStr (ascii ''https://i.ytimg.com/h.jpg''), ctr_score = Fin 0\<rparr>"
  have h0: "interface_tiers ?tiers"
    by (simp add: interface_tiers_def tier_names_def carries_url_def url_of_def ascii_def)
  have h1: "build_thumbnail_info no_parse (video_with_tiers ?tiers) = Inr ?info"
    by (simp add: video_with_tiers_def scorer_eval)
  have h2: "py_get (video_with_tiers ?tiers) (ascii ''snippet'') (JObj []) =
              Inr (JObj [(ascii ''thumbnails'', JObj ?tiers)])"
    by (simp add: video_with_tiers_def ascii_def)
  have h3: "py_get (JObj [(ascii ''thumbnails'', JObj ?tiers)]) (ascii ''thumbnails'') (JObj []) =
              Inr (JObj ?tiers)"
    by simp
  have f: "first_present ?tiers = Some ?h"
    by (simp add: first_present_def tier_names_def List.map_filter_simps ascii_def)
  have u: "url_of ?h = JStr (ascii ''https://i.ytimg.com/h.jpg'')"
    by (simp add: url_of_def)
  from thumbnail_url_selection
         [OF h0, of no_parse "video_with_tiers ?tiers" ?info
             "JObj [(ascii ''thumbnails'', JObj ?tiers)]"] h1 h2 h3 f
  have "thumbnail_url ?info \<noteq> JStr []" by simp
  with h0 h1 f u show ?thesis by blast
qed


section \<open>Properties of the playlist traversal\<close>

text \<open>
  Claim C9. When the playlist call answers with a body whose \<open>items\<close> are the empty
  list (or that has no \<open>items\<close>), \<open>_get_latest_videos\<close> returns the empty list as its
  result, not an error, and the playlist call is the only call added to the log: the
  statistics call is not made.
\<close>

theorem empty_playlist_is_success:
  assumes "net calls (playlist_request api_key playlist_id max_results) = Body playlist_data"
    and "py_get playlist_data (ascii ''items'') (JArr []) = Inr (JArr [])"
  shows "get_latest_videos api_key net playlist_id max_results calls =
           (Inr (JArr []), calls @ [playlist_request api_key playlist_id max_results])"
  using assms by (simp add: get_latest_videos_def http_get_json_def)

text \<open>
  A network for C9 at a concrete input: every call is answered with a body that has
  no videos in it.
\<close>

theorem empty_playlist_is_success_witness:
  "empty_channel [] (playlist_request None (JStr (ascii ''UUabc'')) 12) =
     Body (JObj [(ascii ''items'', JArr [])]) \<and>
   py_get (JObj [(ascii ''items'', JArr [])]) (ascii ''items'') (JArr []) = Inr (JArr []) \<and>
   get_latest_videos None empty_channel (JStr (ascii ''UUabc'')) 12 [] =
     (Inr (JArr []), [playlist_request None (JStr (ascii ''UUabc'')) 12])"
proof -
  have h1: "empty_channel [] (playlist_request None (JStr (ascii ''UUabc'')) 12) =
              Body (JObj [(ascii ''items'', JArr [])])"
    by (simp add: empty_channel_def)
  have h2: "py_get (JObj [(ascii ''items'', JArr [])]) (ascii ''items'') (JArr []) =
              Inr (JArr [])"
    by simp
  from empty_playlist_is_success
         [of empty_channel "[]" None "JStr (ascii ''UUabc'')" 12
             "JObj [(ascii ''items'', JArr [])]", OF h1 h2] h1 h2
  show ?thesis by simp
qed

section \<open>Properties of the creative suggestions\<close>

lemma image_to_data_url_nonempty: "image_to_data_url b \<noteq> []"
  by (simp add: image_to_data_url_def ascii_def)

lemma placeholder_image_nonempty: "placeholder_image fill render text \<noteq> []"
  by (simp add: placeholder_image_def ascii_def Let_def)

text \<open>
  Claim C8. Without a generation credential (\<open>None\<close> or the empty string), whatever the
  title, the description, the original thumbnail and the generation library are,
  \<open>propose_new_thumbnail\<close> returns the content prompt, the fixed instruction as the idea
  and the placeholder image, which is not empty, and the log of generation calls is
  unchanged.
\<close>

theorem suggestion_without_credential:
  assumes "api_key = None \<or> api_key = Some []"
  shows "propose_new_thumbnail fill render api_key genai video_title video_description original calls =
           (Inr \<lparr>prompt = content_prompt video_title video_description original,
                  idea = idea_without_key,
                  image_data_url = Some (placeholder_image fill render video_title)\<rparr>, calls) \<and>
         placeholder_image fill render video_title \<noteq> []"
  using assms placeholder_image_nonempty [of fill render video_title]
  by (auto simp: propose_new_thumbnail_def Let_def)

text \<open>
  C8 at a concrete title, with a generation library at hand that would answer.
\<close>

theorem suggestion_without_credential_witness:
  "((None :: pystr option) = None \<or> (None :: pystr option) = Some []) \<and>
   propose_new_thumbnail plain_fill blank_png None (Some text_only_genai)
       (ascii ''My video'') (ascii ''About it'') None [] =
     (Inr \<lparr>prompt = content_prompt (ascii ''My video'') (ascii ''About it'') None,
            idea = idea_without_key,
            image_data_url = Some (ascii ''data:image/png;base64,iVBORw=='')\<rparr>, [])"
proof -
  have h: "(None :: pystr option) = None \<or> (None :: pystr option) = Some []"
    by simp
  have "placeholder_image plain_fill blank_png (ascii ''My video'') =
          ascii ''data:image/png;base64,iVBORw==''"
    by (simp add: placeholder_image_def plain_fill_def blank_png_def ascii_def b64_char_def)
  with suggestion_without_credential
         [OF h, of plain_fill blank_png "Some text_only_genai" "ascii ''My video''"
            "ascii ''About it''" None "[]"]
  show ?thesis by simp
qed

text \<open>
  Claim C1, as amended. \<open>propose_new_thumbnail\<close> returns a result, with its prompt and a
  non-empty image, whatever the image generation does, when there is no credential, or
  no generation library, or the text generation returns. When the credential and the
  library are there and the text generation raises, the error reaches the caller.
\<close>

theorem suggestion_returns_unless_text_raises:
  "(api_key = None \<or> api_key = Some [] \<or> genai = None \<or>
      (\<exists>g t. genai = Some g \<and>
         generate_content g text_model
           [base_prompt, content_prompt video_title video_description original] = Returns t)
    \<longrightarrow> (\<exists>r calls'.
          propose_new_thumbnail fill render api_key genai video_title video_description original calls =
            (Inr r, calls') \<and>
          prompt r = content_prompt video_title video_description original \<and>
          (\<exists>d. image_data_url r = Some d \<and> d \<noteq> []))) \<and>
   (api_key \<noteq> None \<and> api_key \<noteq> Some [] \<and>
      (\<exists>g. genai = Some g \<and>
         generate_content g text_model
           [base_prompt, content_prompt video_title video_description original] = Raises)
    \<longrightarrow> propose_new_thumbnail fill render api_key genai video_title video_description original calls =
          (Inl GenerationError,
           calls @ [GenerateContent text_model
                      [base_prompt, content_prompt video_title video_description original]]))"
proof (intro conjI impI)
  assume a: "api_key = None \<or> api_key = Some [] \<or> genai = None \<or>
      (\<exists>g t. genai = Some g \<and>
         generate_content g text_model
           [base_prompt, content_prompt video_title video_description original] = Returns t)"
  let ?P = "\<lambda>x. \<exists>r calls'. x = (Inr r, calls') \<and>
          prompt r = content_prompt video_title video_description original \<and>
          (\<exists>d. image_data_url r = Some d \<and> d \<noteq> [])"
  show "?P (propose_new_thumbnail fill render api_key genai video_title video_description original calls)"
  proof (cases "truthy (opt_str api_key) \<and> genai \<noteq> None")
    case False
    then show ?thesis
      using placeholder_image_nonempty [of fill render video_title]
      by (simp add: propose_new_thumbnail_def Let_def)
  next
    case True
    then have k: "api_key \<noteq> None" "api_key \<noteq> Some []"
      by (simp_all add: truthy_opt_str)
    from True a k obtain g t where g: "genai = Some g"
      and t: "generate_content g text_model
                [base_prompt, content_prompt video_title video_description original] = Returns t"
      by auto
    show ?thesis
      using True g t placeholder_image_nonempty [of fill render video_title]
        image_to_data_url_nonempty
      by (simp add: propose_new_thumbnail_def Let_def
            split: outcome.split list.split generated_image.split)
  qed
next
  assume b: "api_key \<noteq> None \<and> api_key \<noteq> Some [] \<and>
      (\<exists>g. genai = Some g \<and>
         generate_content g text_model
           [base_prompt, content_prompt video_title video_description original] = Raises)"
  then obtain k where "api_key = Some k" "k \<noteq> []" by (cases api_key) auto
  with b show "propose_new_thumbnail fill render api_key genai video_title video_description original calls =
          (Inl GenerationError,
           calls @ [GenerateContent text_model
                      [base_prompt, content_prompt video_title video_description original]])"
    by (auto simp: propose_new_thumbnail_def Let_def)
qed

text \<open>
  C1 where the text generation answers and the image generation raises: the trimmed
  text comes back with the placeholder image.
\<close>

theorem suggestion_returns_unless_text_raises_witness:
  "generate_content text_only_genai text_model
     [base_prompt, content_prompt (ascii ''My video'') (ascii ''About it'') None] =
     Returns (ascii '' Three concepts. '') \<and>
   (\<exists>r calls'.
      propose_new_thumbnail plain_fill blank_png (Some (ascii ''secret'')) (Some text_only_genai)
        (ascii ''My video'') (ascii ''About it'') None [] = (Inr r, calls') \<and>
      prompt r = content_prompt (ascii ''My video'') (ascii ''About it'') None \<and>
      (\<exists>d. image_data_url r = Some d \<and> d \<noteq> [])) \<and>
   propose_new_thumbnail plain_fill blank_png (Some (ascii ''secret'')) (Some text_only_genai)
     (ascii ''My video'') (ascii ''About it'') None [] =
     (Inr \<lparr>prompt = content_prompt (ascii ''My video'') (ascii ''About it'') None,
            idea = ascii ''Three concepts.'',
            image_data_url = Some (ascii ''data:image/png;base64,iVBORw=='')\<rparr>,
      [GenerateContent text_model
         [base_prompt, content_prompt (ascii ''My video'') (ascii ''About it'') None],
       GenerateImages image_model (image_prompt (ascii ''My video''))])"
proof -
  have h: "generate_content text_only_genai text_model
     [base_prompt, content_prompt (ascii ''My video'') (ascii ''About it'') None] =
     Returns (ascii '' Three concepts. '')"
    by (simp add: text_only_genai_def)
  then have "Some (ascii ''secret'') = None \<or> Some (ascii ''secret'') = Some [] \<or>
      Some text_only_genai = None \<or>
      (\<exists>g t. Some text_only_genai = Some g \<and>
         generate_content g text_model
           [base_prompt, content_prompt (ascii ''My video'') (ascii ''About it'') None] =
           Returns t)"
    by blast
  with suggestion_returns_unless_text_raises
         [of "Some (ascii ''secret'')" "Some text_only_genai" "ascii ''My video''"
             "ascii ''About it''" None plain_fill blank_png "[]"]
  have e: "\<exists>r calls'.
      propose_new_thumbnail plain_fill blank_png (Some (ascii ''secret'')) (Some text_only_genai)
        (ascii ''My video'') (ascii ''About it'') None [] = (Inr r, calls') \<and>
      prompt r = content_prompt (ascii ''My video'') (ascii ''About it'') None \<and>
      (\<exists>d. image_data_url r = Some d \<and> d \<noteq> [])"
    by blast
  have s: "py_strip (ascii '' Three concepts. '') = ascii ''Three concepts.''"
    by (simp add: py_strip_def py_isspace_def ascii_def)
  have p: "placeholder_image plain_fill blank_png (ascii ''My video'') =
          ascii ''data:image/png;base64,iVBORw==''"
    by (simp add: placeholder_image_def plain_fill_def blank_png_def ascii_def b64_char_def)
  have "propose_new_thumbnail plain_fill blank_png (Some (ascii ''secret'')) (Some text_only_genai)
     (ascii ''My video'') (ascii ''About it'') None [] =
     (Inr \<lparr>prompt = content_prompt (ascii ''My video'') (ascii ''About it'') None,
            idea = ascii ''Three concepts.'',
            image_data_url = Some (ascii ''data:image/png;base64,iVBORw=='')\<rparr>,
      [GenerateContent text_model
         [base_prompt, content_prompt (ascii ''My video'') (ascii ''About it'') None],
       GenerateImages image_model (image_prompt (ascii ''My video''))])"
    unfolding propose_new_thumbnail_def Let_def p
    by (simp add: text_only_genai_def s) (simp add: ascii_def)
  with h e show ?thesis by blast
qed

text \<open>
  C1 as stated fails when the text generation raises: with a credential and a library
  in which every call raises, the call ends in the error, after the one text call.
\<close>

theorem suggestion_returns_unless_text_raises_counterexample:
  "propose_new_thumbnail plain_fill blank_png (Some (ascii ''secret'')) (Some failing_genai)
     (ascii ''My video'') (ascii ''About it'') None [] =
     (Inl GenerationError,
      [GenerateContent text_model
         [base_prompt, content_prompt (ascii ''My video'') (ascii ''About it'') None]])"
  by (simp add: propose_new_thumbnail_def Let_def failing_genai_def ascii_def)

end
